theory Spec2Isabelle
  imports Main "HOL-Library.AList" "HOL-Library.Word"
begin

section \<open>JavaScript strings as used by the engine\<close>

text \<open>
  Header names and values reach the engine from Node's HTTP parser, which decodes them as
  Latin-1: every code unit fits one \<^typ>\<open>char\<close>. The string methods the engine calls
  (\<open>split\<close>, \<open>trim\<close>, \<open>startsWith\<close>, \<open>endsWith\<close>, \<open>includes\<close>, \<open>toLowerCase\<close>, \<open>join\<close>)
  are written out below on such strings.
\<close>

text \<open>\<open>s.split(sep)\<close> for a separator that matches single characters: the result always
  holds at least one piece, and \<open>"".split(sep)\<close> is \<open>[""]\<close>.\<close>

fun splitOn :: "(char \<Rightarrow> bool) \<Rightarrow> string \<Rightarrow> string list" where
  "splitOn p [] = [[]]"
| "splitOn p (c # cs) =
     (if p c then [] # splitOn p cs
      else (case splitOn p cs of
              [] \<Rightarrow> [[c]]
            | w # ws \<Rightarrow> (c # w) # ws))"

text \<open>\<open>parts.join(sep)\<close>.\<close>

fun joinWith :: "string \<Rightarrow> string list \<Rightarrow> string" where
  "joinWith sep [] = []"
| "joinWith sep [p] = p"
| "joinWith sep (p # q # ps) = p @ sep @ joinWith sep (q # ps)"

text \<open>The white space and line terminators of ECMAScript that exist in Latin-1:
  TAB, LF, VT, FF, CR, SP and NBSP.\<close>

definition isWhiteSpace :: "char \<Rightarrow> bool" where
  "isWhiteSpace c =
     (c = CHR 0x09 \<or> c = CHR 0x0A \<or> c = CHR 0x0B \<or> c = CHR 0x0C \<or> c = CHR 0x0D \<or>
      c = CHR 0x20 \<or> c = CHR 0xA0)"

definition trim :: "string \<Rightarrow> string" where
  "trim s = rev (dropWhile isWhiteSpace (rev (dropWhile isWhiteSpace s)))"

definition startsWith :: "string \<Rightarrow> string \<Rightarrow> bool" where
  "startsWith s p = (take (length p) s = p)"

definition endsWith :: "string \<Rightarrow> string \<Rightarrow> bool" where
  "endsWith s p = (length p \<le> length s \<and> drop (length s - length p) s = p)"

text \<open>\<open>s.includes(c)\<close> for a one-character needle.\<close>

definition includesChar :: "string \<Rightarrow> char \<Rightarrow> bool" where
  "includesChar s c = (c \<in> set s)"

text \<open>\<open>toLowerCase\<close> on Latin-1: \<open>A\<close>..\<open>Z\<close> and the accented capitals 0xC0..0xDE
  (0xD7, the multiplication sign, apart) move up by 0x20.\<close>

definition lowerChar :: "char \<Rightarrow> char" where
  "lowerChar c =
     (let n = (of_char c :: nat) in
      if (65 \<le> n \<and> n \<le> 90) \<or> (192 \<le> n \<and> n \<le> 222 \<and> n \<noteq> 215)
      then char_of (n + 32) else c)"

definition toLowerCase :: "string \<Rightarrow> string" where
  "toLowerCase s = map lowerChar s"

text \<open>A string in a boolean position: the empty string is falsy, \<open>undefined\<close> too.\<close>

fun truthy :: "string option \<Rightarrow> bool" where
  "truthy None = False"
| "truthy (Some s) = (s \<noteq> [])"


section \<open>Header and MIME utilities\<close>

text \<open>The loop of \<open>getType\<close>: \<open>bestGuess\<close> starts \<open>undefined\<close>; a fully specified entry
  ends the loop (\<open>break\<close>).\<close>

fun getType_loop :: "string list \<Rightarrow> string option \<Rightarrow> string option" where
  "getType_loop [] bestGuess = bestGuess"
| "getType_loop (part # parts) bestGuess =
     (let entry = trim part in
      if \<not> truthy bestGuess \<and> entry = ''*/*'' then getType_loop parts (Some entry)
      else if endsWith entry ''/*'' \<and> (\<not> truthy bestGuess \<or> bestGuess = Some ''*/*'')
        then getType_loop parts (Some entry)
      else if includesChar entry (CHR ''/'') \<and> \<not> includesChar entry (CHR ''*'')
        then Some entry
      else getType_loop parts bestGuess)"

text \<open>\<open>getType(str = "", def = "text/html", noWildcard)\<close>: \<open>None\<close> is an argument that is
  \<open>undefined\<close> (a missing header, an omitted argument), which takes the default value.\<close>

definition getType :: "string option \<Rightarrow> string option \<Rightarrow> bool \<Rightarrow> string" where
  "getType str_arg def_arg noWildcard =
     (let str = (case str_arg of None \<Rightarrow> [] | Some s \<Rightarrow> s);
          dflt = (case def_arg of None \<Rightarrow> ''text/html'' | Some d \<Rightarrow> d);
          bestGuess = getType_loop (splitOn (\<lambda>c. c = CHR '','' \<or> c = CHR '';'') str) None
      in if \<not> truthy bestGuess \<or> (noWildcard \<and> includesChar (the bestGuess) (CHR ''*''))
         then dflt else the bestGuess)"

definition isText :: "string option \<Rightarrow> bool" where
  "isText mimeType =
     (case mimeType of
        None \<Rightarrow> False
      | Some m \<Rightarrow>
          if m = [] then False
          else startsWith m ''text/'' \<or> endsWith m ''/xhtml+xml'' \<or> endsWith m ''/xml'')"


subsection \<open>What the specification says \<open>parseAcceptedType\<close> computes\<close>

definition fullySpecified :: "string \<Rightarrow> bool" where
  "fullySpecified e = (CHR ''/'' \<in> set e \<and> CHR ''*'' \<notin> set e)"

definition typeWildcard :: "string \<Rightarrow> bool" where
  "typeWildcard e = (endsWith e ''/*'' \<and> e \<noteq> ''*/*'')"

definition selectEntry_spec :: "string list \<Rightarrow> string option" where
  "selectEntry_spec entries =
     (case find fullySpecified entries of
        Some e \<Rightarrow> Some e
      | None \<Rightarrow>
          (case find typeWildcard entries of
             Some e \<Rightarrow> Some e
           | None \<Rightarrow> find (\<lambda>e. e = ''*/*'') entries))"

definition parseAcceptedType_spec :: "string \<Rightarrow> string \<Rightarrow> bool \<Rightarrow> string" where
  "parseAcceptedType_spec headerValue dflt noWildcard =
     (case selectEntry_spec
             (map trim (splitOn (\<lambda>c. c = CHR '','' \<or> c = CHR '';'') headerValue)) of
        None \<Rightarrow> dflt
      | Some e \<Rightarrow> if noWildcard \<and> CHR ''*'' \<in> set e then dflt else e)"



section \<open>The request engine\<close>

subsection \<open>Data\<close>

type_synonym byte = "8 word"
type_synonym buffer = "byte list"

text \<open>A decoded body text is a JavaScript string: UTF-16 code units.\<close>

type_synonym jsstring = "16 word list"

text \<open>A header object is a JavaScript object with string keys: insertion ordered, one value
  per key. Node stores a header value as a string or (for \<open>set-cookie\<close>) an array of
  strings; the engine itself stores a number under \<open>content-length\<close>.
  \<open>h[k] = v\<close> is \<^const>\<open>AList.update\<close>, \<open>delete h[k]\<close> is \<^const>\<open>AList.delete\<close> and \<open>h[k]\<close>
  is \<^const>\<open>map_of\<close>.\<close>

datatype hvalue = HStr string | HNum nat | HArr "string list"

type_synonym headers = "(string \<times> hvalue) list"

datatype level = INFO | WARNING | ERROR

text \<open>What a patcher hands back as a body and what \<open>write\<close> accepts: a \<open>Buffer\<close> or a string.\<close>

datatype body = BufferBody buffer | StringBody jsstring

text \<open>\<open>global.RequestDecision\<close>, with the members this file names.\<close>

datatype requestDecision = Allow | Empty | Deny | Redirect | Pipe

datatype 'a nullable = Undefined | Null | Value 'a

text \<open>The decision object of a patcher: \<open>result\<close>, \<open>headers\<close> (here \<open>dheaders\<close>; \<open>None\<close> when
  falsy), \<open>redirectLocation\<close> and \<open>redirectText\<close>.\<close>

record decision =
  result :: requestDecision
  dheaders :: "headers option"
  redirectLocation :: "string nullable"
  redirectText :: body

text \<open>The object \<open>url.parse\<close> returns; \<open>None\<close> is \<open>null\<close>.\<close>

record urlObject =
  protocol :: "string option"
  slashes :: "bool option"
  auth :: "string option"
  host :: "string option"
  port :: "string option"
  hostname :: "string option"
  hash :: "string option"
  search :: "string option"
  query :: "string option"
  pathname :: "string option"
  path :: "string option"
  href :: "string option"

type_synonym agent = nat

text \<open>\<open>options\<close>: the parsed URL (\<open>target\<close>, whose \<open>auth\<close> the engine overwrites) extended with
  \<open>method\<close>, \<open>headers\<close> and \<open>agent\<close>.\<close>

record options =
  target :: urlObject
  omethod :: string
  oheaders :: headers
  oagent :: agent

text \<open>The client's request stream: its chunks, then \<open>end\<close> or \<open>error\<close>.\<close>

datatype incoming = ReqEnd "buffer list" | ReqError string

record localReq =
  url :: string
  rmethod :: string
  headers :: headers
  req_auth :: "string option"
  httpVersion :: string
  stream :: incoming

text \<open>The upstream response: status line, headers (\<open>rheaders\<close>) and the chunks received.\<close>

record remoteRes =
  statusCode :: nat
  statusMessage :: string
  rheaders :: headers
  chunks :: "buffer list"

text \<open>How the upstream request goes: \<open>error\<close> on the request, or a response whose
  stream ends, fails or is aborted, or nothing at all.\<close>

datatype upstream =
    RequestError string
  | RemoteEnd remoteRes
  | RemoteError remoteRes string
  | RemoteAborted remoteRes
  | NoReply

text \<open>What the engine does, in program order. The first group is the request engine's
  (\<open>localRes\<close>, the upstream request, the patcher hooks); the second is the CONNECT engine's
  on \<open>localSocket\<close>: \<open>NetConnect port host\<close> is \<open>net.connect\<close>, \<open>PipeToConnection\<close> is
  \<open>localSocket.pipe(connection)\<close>, \<open>PipeToClient\<close> is \<open>connection.pipe(localSocket)\<close> (from
  then on the bytes of the connection reach the client), \<open>Sign\<close> is \<open>tls.sign\<close> and
  \<open>AddContext\<close> is \<open>server.addContext\<close>.\<close>

datatype event =
    Log level string
  | CallOnRequest "hvalue option" string buffer headers nat
  | WriteHead nat string headers
  | Write body
  | End
  | Destroy
  | Request bool options body
  | CallOnTextResponse "hvalue option" string jsstring headers nat
  | CallOnOtherResponse "hvalue option" string buffer headers nat
  | Throw string
  | Pause
  | Resume
  | SocketDestroy
  | SocketWrite string
  | CallOnConnect string nat
  | NetConnect int "string option"
  | PipeToConnection
  | PipeToClient
  | EmitData buffer
  | NextTick
  | Sign string
  | AddContext string string

text \<open>The collaborators the engine takes from \<open>global\<close> and from Node. A patcher hook
  answers through its callback, or never (\<open>None\<close>); it holds the header object it was
  given and may change it, so its answer carries the header object as the hook left it.\<close>

record env =
  url_parse :: "string \<Rightarrow> string + urlObject"
  getAgent :: "string \<Rightarrow> headers \<Rightarrow> bool \<Rightarrow> agent"
  onRequest :: "hvalue option \<Rightarrow> string \<Rightarrow> buffer \<Rightarrow> headers \<Rightarrow> nat
                  \<Rightarrow> (decision \<times> body \<times> headers) option"
  request :: "bool \<Rightarrow> options \<Rightarrow> body \<Rightarrow> upstream"
  unzip :: "buffer \<Rightarrow> string + buffer"
  toString :: "buffer \<Rightarrow> jsstring"
  utf8 :: "jsstring \<Rightarrow> buffer"
  onTextResponse :: "hvalue option \<Rightarrow> string \<Rightarrow> jsstring \<Rightarrow> headers \<Rightarrow> nat
                       \<Rightarrow> (body \<times> headers) option"
  onOtherResponse :: "hvalue option \<Rightarrow> string \<Rightarrow> buffer \<Rightarrow> headers \<Rightarrow> nat
                        \<Rightarrow> (body \<times> headers) option"

text \<open>The bytes \<open>write\<close> sends for a body, and \<open>Buffer.byteLength\<close> of it (a string counts
  in its UTF-8 encoding).\<close>

fun written :: "env \<Rightarrow> body \<Rightarrow> buffer" where
  "written e (BufferBody b) = b"
| "written e (StringBody s) = utf8 e s"

definition byteLength :: "env \<Rightarrow> body \<Rightarrow> nat" where
  "byteLength e b = length (written e b)"

text \<open>A header value on which the engine calls a string method: a number or an array has
  no such method and the call throws.\<close>

fun asString :: "hvalue option \<Rightarrow> string + string option" where
  "asString None = Inr None"
| "asString (Some (HStr s)) = Inr (Some s)"
| "asString (Some (HNum n)) = Inl ''TypeError''"
| "asString (Some (HArr a)) = Inl ''TypeError''"

text \<open>\<open>if (encoding) encoding = encoding.toLowerCase()\<close>: a falsy value (\<open>undefined\<close>, the
  empty string, the number 0) is left as it is.\<close>

fun lowerEncoding :: "hvalue option \<Rightarrow> string + hvalue option" where
  "lowerEncoding None = Inr None"
| "lowerEncoding (Some (HStr s)) = Inr (Some (HStr (if s = [] then s else toLowerCase s)))"
| "lowerEncoding (Some (HNum n)) = (if n = 0 then Inr (Some (HNum n)) else Inl ''TypeError'')"
| "lowerEncoding (Some (HArr a)) = Inl ''TypeError''"


subsection \<open>Finalization\<close>

text \<open>\<open>onDone\<close> of \<open>requestEngine.finalize\<close>, run from the patcher's callback with the
  patched body and the header object as the patcher left it.\<close>

definition onDone :: "env \<Rightarrow> remoteRes \<Rightarrow> body \<Rightarrow> headers \<Rightarrow> event list" where
  "onDone e res responseData hs =
     (let hs1 = AList.update ''content-length'' (HNum (byteLength e responseData)) hs;
          hs2 = AList.delete ''Public-Key-Pins'' hs1
      in [WriteHead (statusCode res) (statusMessage res) hs2, Write responseData, End])"

definition finalize ::
  "env \<Rightarrow> remoteRes \<Rightarrow> hvalue option \<Rightarrow> string \<Rightarrow> bool \<Rightarrow> buffer \<Rightarrow> nat \<Rightarrow> event list" where
  "finalize e res referer u isTxt responseData ident =
     (if isTxt then
        CallOnTextResponse referer u (toString e responseData) (rheaders res) ident #
        (case onTextResponse e referer u (toString e responseData) (rheaders res) ident of
           None \<Rightarrow> []
         | Some (patchedData, hs) \<Rightarrow> onDone e res patchedData hs)
      else
        CallOnOtherResponse referer u responseData (rheaders res) ident #
        (case onOtherResponse e referer u responseData (rheaders res) ident of
           None \<Rightarrow> []
         | Some (patchedData, hs) \<Rightarrow> onDone e res patchedData hs))"


subsection \<open>The upstream response\<close>

text \<open>The \<open>end\<close> handler of the upstream response. \<open>hs\<close> is the client's header object at
  that time, read for the referer.\<close>

definition remoteEnd :: "env \<Rightarrow> headers \<Rightarrow> string \<Rightarrow> nat \<Rightarrow> remoteRes \<Rightarrow> event list" where
  "remoteEnd e hs u ident res =
     (let data = concat (chunks res); referer = map_of hs ''referer'' in
      case asString (map_of (rheaders res) ''content-type'') of
        Inl err \<Rightarrow> [Throw err]
      | Inr ctype \<Rightarrow>
          if isText (Some (getType ctype None False)) then
            (case lowerEncoding (map_of (rheaders res) ''content-encoding'') of
               Inl err \<Rightarrow> [Throw err]
             | Inr encoding \<Rightarrow>
                 let res1 = res\<lparr>rheaders :=
                              AList.update ''content-encoding'' (HStr ''identity'') (rheaders res)\<rparr>
                 in if encoding = Some (HStr ''gzip'') \<or> encoding = Some (HStr ''deflate'') then
                      (case unzip e data of
                         Inl msg \<Rightarrow>
                           [Log WARNING (''Could not parse server response: '' @ msg), Destroy]
                       | Inr res_data \<Rightarrow> finalize e res1 referer u True res_data ident)
                    else finalize e res1 referer u True data ident)
          else finalize e res referer u False data ident)"

text \<open>The callback of \<open>request\<close> with its \<open>end\<close>, \<open>error\<close> and \<open>aborted\<close> handlers, and the
  \<open>error\<close> handler of the request itself.\<close>

definition upstreamReply :: "env \<Rightarrow> headers \<Rightarrow> string \<Rightarrow> nat \<Rightarrow> upstream \<Rightarrow> event list" where
  "upstreamReply e hs u ident out =
     (case out of
        RequestError msg \<Rightarrow> [Log WARNING (''Could not connect to remote server: '' @ msg), Destroy]
      | RemoteEnd res \<Rightarrow> remoteEnd e hs u ident res
      | RemoteError res msg \<Rightarrow>
          [Log WARNING (''Could not connect to remote server: '' @ msg), Destroy]
      | RemoteAborted res \<Rightarrow> [Destroy]
      | NoReply \<Rightarrow> [])"


subsection \<open>The patcher's decision\<close>

text \<open>The default header set of a synthesized reply; its \<open>Content-Type\<close> comes from the
  client's \<open>accept\<close> header with \<open>noWildcard\<close> set.\<close>

definition defaultHeaders :: "headers \<Rightarrow> string + headers" where
  "defaultHeaders hs =
     (case asString (map_of hs ''accept'') of
        Inl err \<Rightarrow> Inl err
      | Inr accept \<Rightarrow>
          Inr [(''Content-Type'', HStr (getType accept None True)),
               (''Server'', HStr ''Apache/2.4.7 (Ubuntu)'')])"

text \<open>\<open>decision.headers || {...}\<close>: the default set is only built when the decision has none.\<close>

definition replyHeaders :: "decision \<Rightarrow> headers \<Rightarrow> string + headers" where
  "replyHeaders d hs = (case dheaders d of Some h \<Rightarrow> Inr h | None \<Rightarrow> defaultHeaders hs)"

text \<open>The upstream request: \<open>https\<close> or \<open>http\<close> by the protocol of the options, the payload
  written, the request ended; then whatever the upstream does.\<close>

definition proxyRequest ::
  "env \<Rightarrow> options \<Rightarrow> headers \<Rightarrow> string \<Rightarrow> body \<Rightarrow> nat \<Rightarrow> event list" where
  "proxyRequest e opts hs u payload ident =
     (let secure = (protocol (target opts) = Some ''https:'')
      in Request secure opts payload #
         upstreamReply e hs u ident (request e secure opts payload))"

text \<open>The callback handed to \<open>global.onRequest\<close>. \<open>hs0\<close> is the client's header object as the
  patcher left it; \<open>options.headers\<close> is that same object, so the options carry it with the
  overwritten \<open>accept-encoding\<close>. \<open>Object.assign(options, url.parse(...))\<close> replaces every
  field of the parsed URL, \<open>auth\<close> included.\<close>

definition onDecision ::
  "env \<Rightarrow> options \<Rightarrow> string \<Rightarrow> nat \<Rightarrow> decision \<Rightarrow> body \<Rightarrow> headers \<Rightarrow> event list" where
  "onDecision e opts u ident d payload hs0 =
     (let hs = AList.update ''accept-encoding'' (HStr ''gzip, deflate'') hs0;
          opts1 = opts\<lparr>oheaders := hs\<rparr>
      in case result d of
           Allow \<Rightarrow> proxyRequest e opts1 hs u payload ident
         | Empty \<Rightarrow>
             (case replyHeaders d hs of
                Inl err \<Rightarrow> [Throw err]
              | Inr h \<Rightarrow> [WriteHead 200 ''OK'' h, End])
         | Deny \<Rightarrow> [Destroy]
         | Redirect \<Rightarrow>
             (case redirectLocation d of
                Null \<Rightarrow>
                  (case replyHeaders d hs of
                     Inl err \<Rightarrow> [Throw err]
                   | Inr h \<Rightarrow> [WriteHead 200 ''OK'' h, Write (redirectText d), End])
              | Undefined \<Rightarrow> [Throw ''TypeError'']
              | Value location \<Rightarrow>
                  (case url_parse e location of
                     Inl err \<Rightarrow> [Throw err]
                   | Inr parsed \<Rightarrow>
                       proxyRequest e (opts1\<lparr>target := parsed\<rparr>) hs u payload ident))
         | Pipe \<Rightarrow>
             [Throw ''requestEngine() does not accept [object Object] as a request decision.''])"

text \<open>The \<open>end\<close> handler of the client's request: the payload, the warning for a \<open>GET\<close> with
  a payload, the next id, the patcher.\<close>

definition onEnd ::
  "env \<Rightarrow> nat \<Rightarrow> localReq \<Rightarrow> options \<Rightarrow> buffer list \<Rightarrow> event list \<times> nat" where
  "onEnd e counter req opts cs =
     (let payload = concat cs;
          warn = (if omethod opts = ''GET'' \<and> payload \<noteq> []
                  then [Log WARNING ''Received a GET request with a payload.''] else []);
          ident = counter;
          referer = map_of (headers req) ''referer''
      in (warn @ CallOnRequest referer (url req) payload (headers req) ident #
            (case onRequest e referer (url req) payload (headers req) ident of
               None \<Rightarrow> []
             | Some (d, patched, hs) \<Rightarrow> onDecision e opts (url req) ident d patched hs),
          Suc counter))"

text \<open>\<open>requestEngine\<close>: the trace of one transaction and the id counter after it.\<close>

definition requestEngine :: "env \<Rightarrow> nat \<Rightarrow> localReq \<Rightarrow> event list \<times> nat" where
  "requestEngine e counter req =
     (let hello = Log INFO (''Received a REQUEST request: '' @ url req) in
      case url_parse e (url req) of
        Inl msg \<Rightarrow>
          ([hello, Log WARNING (''Received an invalid REQUEST request: '' @ msg), Destroy],
           counter)
      | Inr parsed \<Rightarrow>
          let opts = \<lparr>target = parsed\<lparr>auth := req_auth req\<rparr>,
                      omethod = rmethod req,
                      oheaders = headers req,
                      oagent = getAgent e (httpVersion req) (headers req)
                                 (protocol parsed = Some ''https:'')\<rparr>
          in if (case url req of [] \<Rightarrow> True | c # cs \<Rightarrow> c = CHR ''/'') then
               ([hello, Log WARNING ''Received an invalid REQUEST request: No host give.'',
                 Destroy], counter)
             else
               (case stream req of
                  ReqError msg \<Rightarrow>
                    ([hello, Log WARNING (''Local connection failed: '' @ msg), Destroy], counter)
                | ReqEnd cs \<Rightarrow>
                    (case onEnd e counter req opts cs of
                       (tr, counter1) \<Rightarrow> (hello # tr, counter1))))"


section \<open>The dynamic server\<close>

text \<open>A certificate is whatever \<open>tls.sign\<close> hands to its callback.\<close>

type_synonym cert = string

record dynamicServer =
  listenPort :: int
  knownHosts :: "string list"
  contexts :: "(string \<times> cert) list"

text \<open>The constructor: port 12346, no known host.\<close>

definition newDynamicServer :: dynamicServer where
  "newDynamicServer = \<lparr>listenPort = 12346, knownHosts = [], contexts = []\<rparr>"

text \<open>\<open>prepare(host, callback)\<close> at the time of the call: the callback goes to the next tick
  when the host is known, \<open>tls.sign\<close> is called otherwise.\<close>

datatype prepared = CallbackNextTick | CallSign

definition prepare :: "dynamicServer \<Rightarrow> string \<Rightarrow> prepared" where
  "prepare srv h = (if h \<in> set (knownHosts srv) then CallbackNextTick else CallSign)"

text \<open>The callback \<open>prepare\<close> hands to \<open>tls.sign\<close>, up to its call of \<open>callback()\<close>.\<close>

definition signDone :: "dynamicServer \<Rightarrow> string \<Rightarrow> cert \<Rightarrow> dynamicServer" where
  "signDone srv h c = srv\<lparr>knownHosts := knownHosts srv @ [h], contexts := contexts srv @ [(h, c)]\<rparr>"


section \<open>The CONNECT engine\<close>

text \<open>How \<open>net.connect\<close> goes: the connect callback runs, or \<open>error\<close> is emitted, or neither.\<close>

datatype connected = Connected | ConnectError string | ConnectPending

record cenv =
  onConnect :: "string \<Rightarrow> nat \<Rightarrow> decision option"
  sign :: "string \<Rightarrow> cert option"
  netConnect :: "int \<Rightarrow> string option \<Rightarrow> connected"

subsection \<open>The target\<close>

definition isDigit :: "char \<Rightarrow> bool" where
  "isDigit c = (c \<in> set ''0123456789'')"

text \<open>\<open>/^\d+$/.test(s)\<close>.\<close>

definition isInteger :: "string \<Rightarrow> bool" where
  "isInteger s = (s \<noteq> [] \<and> list_all isDigit s)"

text \<open>\<open>parseInt\<close> of a string of digits. JavaScript rounds a value beyond \<open>2^53\<close>; it stays
  beyond 65535, which is all the engine asks of it.\<close>

definition digitValue :: "char \<Rightarrow> int" where
  "digitValue c = of_char c - 48"

definition parseInt :: "string \<Rightarrow> int" where
  "parseInt s = foldl (\<lambda>acc c. 10 * acc + digitValue c) 0 s"

text \<open>A number in a template string.\<close>

fun showNat :: "nat \<Rightarrow> string" where
  "showNat n =
     (if n < 10 then [''0123456789'' ! n]
      else showNat (n div 10) @ [''0123456789'' ! (n mod 10)])"

definition showInt :: "int \<Rightarrow> string" where
  "showInt i = (if i < 0 then CHR ''-'' # showNat (nat (- i)) else showNat (nat i))"

text \<open>The first lines of \<open>connectEngine\<close>: host and port of \<open>localReq.url\<close>. \<open>parts.pop()\<close>
  takes the last part away whenever it is all digits, before the range of the port is
  looked at.\<close>

definition connectTarget :: "string \<Rightarrow> string \<times> int" where
  "connectTarget u =
     (let parts = splitOn (\<lambda>c. c = CHR '':'') u in
      if isInteger (last parts) then
        (let p = parseInt (last parts);
             rest = butlast parts
         in (joinWith '':'' rest, if p < 0 \<or> 65535 < p then 443 else p))
      else (joinWith '':'' parts, 443))"

subsection \<open>The handshake\<close>

definition splice :: "buffer \<Rightarrow> event list" where
  "splice localHead = [PipeToConnection, PipeToClient, EmitData localHead, Resume]"

text \<open>The loopback connection of either path, with its \<open>error\<close> handler.\<close>

definition loopback :: "cenv \<Rightarrow> int \<Rightarrow> buffer \<Rightarrow> string \<Rightarrow> event list" where
  "loopback e p localHead what =
     NetConnect p None #
     (case netConnect e p None of
        Connected \<Rightarrow> splice localHead
      | ConnectError msg \<Rightarrow> [Log ERROR what, Throw msg]
      | ConnectPending \<Rightarrow> [])"

text \<open>The two branches of \<open>connectEngine.onHandshake\<close>: the TLS branch goes through
  \<open>dynamicServer.prepare\<close> to the dynamic server's port, the other one straight back to
  the main proxy port.\<close>

definition tlsPath ::
  "cenv \<Rightarrow> dynamicServer \<Rightarrow> buffer \<Rightarrow> string \<Rightarrow> event list \<times> dynamicServer" where
  "tlsPath e srv localHead h =
     (let what = ''An error occured when connecting to dynamic server for encrypted requests handling.''
      in case prepare srv h of
           CallbackNextTick \<Rightarrow> (NextTick # loopback e (listenPort srv) localHead what, srv)
         | CallSign \<Rightarrow>
             (case sign e h of
                None \<Rightarrow> ([Sign h], srv)
              | Some c \<Rightarrow>
                  (Sign h # AddContext h c # loopback e (listenPort srv) localHead what,
                   signDone srv h c)))"

definition webSocketPath ::
  "cenv \<Rightarrow> dynamicServer \<Rightarrow> buffer \<Rightarrow> event list \<times> dynamicServer" where
  "webSocketPath e srv localHead =
     (loopback e 12345 localHead ''An error occured when backlooping for WebSocket handling.'',
      srv)"

text \<open>\<open>connectEngine.onHandshake\<close>. \<open>readUInt8\<close> throws on a buffer of fewer than 3 bytes.\<close>

definition onHandshake ::
  "cenv \<Rightarrow> dynamicServer \<Rightarrow> buffer \<Rightarrow> string \<Rightarrow> event list \<times> dynamicServer" where
  "onHandshake e srv localHead h =
     (case localHead of
        b0 # b1 # b2 # bs \<Rightarrow>
          if b0 = 0x16 \<and> b1 = 0x03 \<and> b2 < 0x06 then tlsPath e srv localHead h
          else webSocketPath e srv localHead
      | _ \<Rightarrow> ([Throw ''RangeError''], srv))"

subsection \<open>The engine\<close>

text \<open>The reply that asks the user agent for its data.\<close>

definition established :: "localReq \<Rightarrow> string" where
  "established req =
     ''HTTP/'' @ httpVersion req @ '' 200 Connection Established'' @ [CHR 0x0D, CHR 0x0A]"

definition reply200 :: "localReq \<Rightarrow> event list" where
  "reply200 req =
     SocketWrite (established req) #
     (if map_of (headers req) ''connection'' = Some (HStr ''keep-alive'')
      then [SocketWrite (''Connection: keep-alive'' @ [CHR 0x0D, CHR 0x0A])] else []) @
     (if map_of (headers req) ''proxy-connection'' = Some (HStr ''keep-alive'')
      then [SocketWrite (''Proxy-Connection: keep-alive'' @ [CHR 0x0D, CHR 0x0A])] else []) @
     [SocketWrite [CHR 0x0D, CHR 0x0A]]"

text \<open>\<open>handler\<close>: one \<open>data\<close> event after another until 3 bytes are there; the list holds
  the chunks the client sends after the socket is resumed.\<close>

fun handler ::
  "cenv \<Rightarrow> dynamicServer \<Rightarrow> string \<Rightarrow> buffer \<Rightarrow> buffer list \<Rightarrow> event list \<times> dynamicServer" where
  "handler e srv h data [] = ([], srv)"
| "handler e srv h data (incomingData # later) =
     (let data1 = data @ incomingData in
      if length data1 < 3 then handler e srv h data1 later
      else (case onHandshake e srv data1 h of (tr, srv1) \<Rightarrow> (Pause # tr, srv1)))"

text \<open>The template string \<open>`${host}:${port}`\<close> handed to \<open>global.onConnect\<close>.\<close>

definition connectName :: "localReq \<Rightarrow> string" where
  "connectName req = (case connectTarget (url req) of (h, p) \<Rightarrow> h @ '':'' @ showInt p)"

text \<open>\<open>connectEngine\<close>: the trace of one CONNECT transaction, the dynamic server and the id
  counter after it.\<close>

definition connectEngine ::
  "cenv \<Rightarrow> dynamicServer \<Rightarrow> nat \<Rightarrow> localReq \<Rightarrow> buffer \<Rightarrow> buffer list
     \<Rightarrow> event list \<times> dynamicServer \<times> nat" where
  "connectEngine e srv counter req localHead arriving =
     (case connectTarget (url req) of
        (h, p) \<Rightarrow>
          let ident = counter;
              pre = [Log INFO (''Received a CONNECT request: '' @ url req), Pause,
                     CallOnConnect (connectName req) ident]
          in case onConnect e (connectName req) ident of
               None \<Rightarrow> (pre, srv, Suc counter)
             | Some d \<Rightarrow>
                 (case result d of
                    Allow \<Rightarrow>
                      if 3 \<le> length localHead then
                        (case onHandshake e srv localHead h of
                           (tr, srv1) \<Rightarrow> (pre @ tr, srv1, Suc counter))
                      else
                        (case handler e srv h localHead arriving of
                           (tr, srv1) \<Rightarrow> (pre @ reply200 req @ Resume # tr, srv1, Suc counter))
                  | Deny \<Rightarrow> (pre @ [SocketDestroy], srv, Suc counter)
                  | Pipe \<Rightarrow>
                      (pre @ NetConnect p (Some h) #
                         (case netConnect e p (Some h) of
                            Connected \<Rightarrow> splice localHead
                          | ConnectError msg \<Rightarrow> [Throw msg]
                          | ConnectPending \<Rightarrow> []),
                       srv, Suc counter)
                  | Empty \<Rightarrow>
                      (pre @ [Throw ''connectEngine() does not accept [object Object] as a request decision.''],
                       srv, Suc counter)
                  | Redirect \<Rightarrow>
                      (pre @ [Throw ''connectEngine() does not accept [object Object] as a request decision.''],
                       srv, Suc counter)))"


section \<open>Properties of traces\<close>

text \<open>\<open>precedes P Q tr\<close>: no event with \<open>Q\<close> stands in \<open>tr\<close> unless an event with \<open>P\<close>
  stands before it.\<close>

fun precedes :: "('a \<Rightarrow> bool) \<Rightarrow> ('a \<Rightarrow> bool) \<Rightarrow> 'a list \<Rightarrow> bool" where
  "precedes P Q [] = True"
| "precedes P Q (x # xs) = (if P x then True else if Q x then False else precedes P Q xs)"

text \<open>Bytes written to the client's response, and an upstream request opened.\<close>

definition writesToClient :: "event \<Rightarrow> bool" where
  "writesToClient ev =
     (case ev of WriteHead st msg hs \<Rightarrow> True | Write b \<Rightarrow> True | End \<Rightarrow> True | _ \<Rightarrow> False)"

definition opensUpstream :: "event \<Rightarrow> bool" where
  "opensUpstream ev = (case ev of Request secure opts payload \<Rightarrow> True | _ \<Rightarrow> False)"

definition callsTextPatcher :: "event \<Rightarrow> bool" where
  "callsTextPatcher ev = (case ev of CallOnTextResponse r u t hs i \<Rightarrow> True | _ \<Rightarrow> False)"

definition callsOtherPatcher :: "event \<Rightarrow> bool" where
  "callsOtherPatcher ev = (case ev of CallOnOtherResponse r u b hs i \<Rightarrow> True | _ \<Rightarrow> False)"

text \<open>The reply \<open>200 Connection Established\<close> written to the socket, and the moment from which
  the bytes of the connection reach the client.\<close>

definition isEstablished :: "localReq \<Rightarrow> event \<Rightarrow> bool" where
  "isEstablished req ev = (ev = SocketWrite (established req))"

definition forwardsToClient :: "event \<Rightarrow> bool" where
  "forwardsToClient ev = (ev = PipeToClient)"

text \<open>A header is named without regard to case: the header object holds \<open>name\<close> when one of
  its keys is \<open>name\<close> in some spelling.\<close>

definition hasHeader :: "headers \<Rightarrow> string \<Rightarrow> bool" where
  "hasHeader hs name = list_ex (\<lambda>kv. toLowerCase (fst kv) = toLowerCase name) hs"


section \<open>What the specification says of the CONNECT target\<close>

text \<open>The last segment is consumed when it is all digits in \<open>[0,65535]\<close>; otherwise nothing
  is consumed and the port is 443.\<close>

definition parseTarget_spec :: "string \<Rightarrow> string \<times> int" where
  "parseTarget_spec u =
     (let parts = splitOn (\<lambda>c. c = CHR '':'') u in
      if isInteger (last parts) \<and> 0 \<le> parseInt (last parts) \<and> parseInt (last parts) \<le> 65535
      then (joinWith '':'' (butlast parts), parseInt (last parts))
      else (joinWith '':'' parts, 443))"


section \<open>Calls of \<open>prepare\<close> that overlap\<close>

text \<open>Between a call of \<open>tls.sign\<close> and its callback, other transactions run. The world holds
  the dynamic server, the hosts whose signature is under way, and what has been performed so far.
  \<open>PrepareCall h\<close> is a call of \<open>prepare(h, ...)\<close>; \<open>SignCompletes h c\<close> is \<open>tls.sign\<close> calling
  back with certificate \<open>c\<close> for a signature of \<open>h\<close> that is under way.\<close>

record world =
  server :: dynamicServer
  inFlight :: "string list"
  performed :: "event list"

datatype occurrence = PrepareCall string | SignCompletes string cert

definition newWorld :: world where
  "newWorld = \<lparr>server = newDynamicServer, inFlight = [], performed = []\<rparr>"

fun occur :: "world \<Rightarrow> occurrence \<Rightarrow> world" where
  "occur w (PrepareCall h) =
     (case prepare (server w) h of
        CallbackNextTick \<Rightarrow> w\<lparr>performed := performed w @ [NextTick]\<rparr>
      | CallSign \<Rightarrow> w\<lparr>inFlight := inFlight w @ [h], performed := performed w @ [Sign h]\<rparr>)"
| "occur w (SignCompletes h c) =
     (if h \<in> set (inFlight w)
      then w\<lparr>server := signDone (server w) h c,
             inFlight := remove1 h (inFlight w),
             performed := performed w @ [AddContext h c]\<rparr>
      else w)"

fun run :: "world \<Rightarrow> occurrence list \<Rightarrow> world" where
  "run w [] = w"
| "run w (oc # ocs) = run (occur w oc) ocs"

text \<open>How often \<open>tls.sign\<close> was called for a host.\<close>

definition signCount :: "world \<Rightarrow> string \<Rightarrow> nat" where
  "signCount w h = count_list (performed w) (Sign h)"

text \<open>A sequence in which no \<open>prepare(h)\<close> is called while a signature of that host \<open>h\<close> is
  under way; what is called or completes for other hosts is free.\<close>

fun serialFor :: "string \<Rightarrow> world \<Rightarrow> occurrence list \<Rightarrow> bool" where
  "serialFor h w [] = True"
| "serialFor h w (oc # ocs) =
     ((oc \<noteq> PrepareCall h \<or> h \<notin> set (inFlight w)) \<and> serialFor h (occur w oc) ocs)"

text \<open>The host was signed for at most once, and if once, its signature is under way or its
  certificate is installed.\<close>

definition signedOnce :: "world \<Rightarrow> string \<Rightarrow> bool" where
  "signedOnce w h =
     (signCount w h = 0 \<or>
      (signCount w h = 1 \<and> (h \<in> set (inFlight w) \<or> h \<in> set (knownHosts (server w)))))"


section \<open>Sample collaborators\<close>

text \<open>Concrete collaborators and messages, at which the theorems below are evaluated. The
  patchers pass everything through; the decoder knows one compressed body.\<close>

definition sampleUrl :: urlObject where
  "sampleUrl =
     \<lparr>protocol = Some ''http:'', slashes = Some True, auth = None,
      host = Some ''example.test'', port = None, hostname = Some ''example.test'',
      hash = None, search = None, query = None, pathname = Some ''/'', path = Some ''/'',
      href = Some ''http://example.test/''\<rparr>"

definition sampleDecision :: "requestDecision \<Rightarrow> decision" where
  "sampleDecision r =
     \<lparr>result = r, dheaders = None, redirectLocation = Null, redirectText = BufferBody []\<rparr>"

definition sampleRes :: "headers \<Rightarrow> buffer list \<Rightarrow> remoteRes" where
  "sampleRes hs cs = \<lparr>statusCode = 200, statusMessage = ''OK'', rheaders = hs, chunks = cs\<rparr>"

text \<open>The gzip stream of the two bytes \<open>hi\<close>.\<close>

definition gzipHi :: buffer where
  "gzipHi =
     [0x1F, 0x8B, 0x08, 0x00, 0x00, 0x00, 0x00, 0x00, 0x02, 0x03,
      0xCB, 0xC8, 0x04, 0x00, 0xAC, 0x2A, 0x93, 0xD8, 0x02, 0x00, 0x00, 0x00]"

definition sampleEnv :: "requestDecision \<Rightarrow> remoteRes \<Rightarrow> env" where
  "sampleEnv r res =
     \<lparr>url_parse = (\<lambda>u. Inr sampleUrl),
      getAgent = (\<lambda>version hs secure. 0),
      onRequest = (\<lambda>referer u payload hs ident. Some (sampleDecision r, BufferBody payload, hs)),
      request = (\<lambda>secure opts payload. RemoteEnd res),
      unzip = (\<lambda>data. if data = gzipHi then Inr [0x68, 0x69]
                       else Inl ''incorrect header check''),
      toString = map ucast,
      utf8 = map ucast,
      onTextResponse = (\<lambda>referer u t hs ident. Some (StringBody t, hs)),
      onOtherResponse = (\<lambda>referer u b hs ident. Some (BufferBody b, hs))\<rparr>"

definition sampleReq :: localReq where
  "sampleReq =
     \<lparr>url = ''http://example.test/'', rmethod = ''GET'',
      headers = [(''host'', HStr ''example.test''), (''accept-encoding'', HStr ''br'')],
      req_auth = None, httpVersion = ''1.1'', stream = ReqEnd []\<rparr>"

definition sampleCenv :: cenv where
  "sampleCenv =
     \<lparr>onConnect = (\<lambda>name ident. Some (sampleDecision Allow)),
      sign = (\<lambda>h. Some (''certificate of '' @ h)),
      netConnect = (\<lambda>p h. Connected)\<rparr>"

definition sampleConnect :: localReq where
  "sampleConnect =
     \<lparr>url = ''example.test:443'', rmethod = ''CONNECT'',
      headers = [(''host'', HStr ''example.test:443'')],
      req_auth = None, httpVersion = ''1.1'', stream = ReqEnd []\<rparr>"


section \<open>Splitting and joining\<close>

lemma splitOn_nonempty: "splitOn p s \<noteq> []"
proof (induction s)
  case Nil
  show ?case by simp
next
  case (Cons a s)
  then show ?case by (cases "splitOn p s") simp_all
qed

lemma splitOn_other:
  "\<not> p c \<Longrightarrow> splitOn p (c # cs) = (c # hd (splitOn p cs)) # tl (splitOn p cs)"
  using splitOn_nonempty[of p cs] by (cases "splitOn p cs") simp_all

lemma joinWith_Cons: "ws \<noteq> [] \<Longrightarrow> joinWith sep (w # ws) = w @ sep @ joinWith sep ws"
  by (cases ws) simp_all

lemma joinWith_Cons_hd:
  "ws \<noteq> [] \<Longrightarrow> joinWith sep ((c # hd ws) # tl ws) = c # joinWith sep ws"
proof (cases ws)
  case Nil
  assume "ws \<noteq> []"
  with Nil show ?thesis by simp
next
  case (Cons w rest)
  then show ?thesis by (cases rest) simp_all
qed

text \<open>Joining the pieces with the separator gives the string back.\<close>

lemma join_split: "joinWith [c] (splitOn (\<lambda>x. x = c) s) = s"
proof (induction s)
  case Nil
  show ?case by simp
next
  case (Cons a s)
  show ?case
  proof (cases "a = c")
    case True
    then have "splitOn (\<lambda>x. x = c) (a # s) = [] # splitOn (\<lambda>x. x = c) s" by simp
    with Cons True show ?thesis
      by (simp only: joinWith_Cons[OF splitOn_nonempty]) simp
  next
    case False
    then have "splitOn (\<lambda>x. x = c) (a # s) =
      (a # hd (splitOn (\<lambda>x. x = c) s)) # tl (splitOn (\<lambda>x. x = c) s)"
      by (intro splitOn_other) simp
    with Cons show ?thesis
      by (simp only: joinWith_Cons_hd[OF splitOn_nonempty])
  qed
qed

lemma splitOn_free: "\<forall>x\<in>set s. \<not> p x \<Longrightarrow> splitOn p s = [s]"
proof (induction s)
  case Nil
  show ?case by simp
next
  case (Cons a s)
  then have "splitOn p s = [s]" and "\<not> p a" by simp_all
  then show ?case by (simp add: splitOn_other del: splitOn.simps)
qed

text \<open>A separator followed by a piece without separators adds that piece at the end.\<close>

lemma splitOn_append:
  "p c \<Longrightarrow> \<forall>x\<in>set t. \<not> p x \<Longrightarrow> splitOn p (s @ c # t) = splitOn p s @ [t]"
proof (induction s)
  case Nil
  then show ?case by (simp add: splitOn_free)
next
  case (Cons a s)
  then have ih: "splitOn p (s @ c # t) = splitOn p s @ [t]" by simp
  show ?case
  proof (cases "p a")
    case True
    with ih show ?thesis by simp
  next
    case False
    have ne: "splitOn p s \<noteq> []" by (rule splitOn_nonempty)
    from False have "splitOn p ((a # s) @ c # t) =
        (a # hd (splitOn p (s @ c # t))) # tl (splitOn p (s @ c # t))"
      by (simp add: splitOn_other del: splitOn.simps)
    also have "\<dots> = (a # hd (splitOn p s)) # tl (splitOn p s) @ [t]"
      using ne by (simp add: ih)
    also have "\<dots> = splitOn p (a # s) @ [t]"
      using False by (simp add: splitOn_other del: splitOn.simps)
    finally show ?thesis .
  qed
qed

text \<open>The last piece ends as the string ends.\<close>

lemma last_splitOn:
  "s \<noteq> [] \<Longrightarrow> \<not> p (last s) \<Longrightarrow>
   last (splitOn p s) \<noteq> [] \<and> last (last (splitOn p s)) = last s"
proof (induction s)
  case Nil
  then show ?case by simp
next
  case (Cons a s)
  have ne: "splitOn p s \<noteq> []" by (rule splitOn_nonempty)
  show ?case
  proof (cases "s = []")
    case True
    with Cons.prems show ?thesis by simp
  next
    case False
    with Cons have ih: "last (splitOn p s) \<noteq> []" "last (last (splitOn p s)) = last s"
      by simp_all
    show ?thesis
    proof (cases "p a")
      case True
      with ih ne False show ?thesis by simp
    next
      case pa: False
      show ?thesis
      proof (cases "tl (splitOn p s) = []")
        case True
        then have "splitOn p s = [hd (splitOn p s)]" using ne by (cases "splitOn p s") simp_all
        then have l: "last (splitOn p s) = hd (splitOn p s)" by (metis last.simps)
        from pa have "splitOn p (a # s) = [a # hd (splitOn p s)]"
          using True by (simp add: splitOn_other del: splitOn.simps)
        with ih l False show ?thesis by simp
      next
        case nt: False
        then have "last (splitOn p s) = last (tl (splitOn p s))"
          using ne by (cases "splitOn p s") simp_all
        moreover from pa have "splitOn p (a # s) = (a # hd (splitOn p s)) # tl (splitOn p s)"
          by (simp add: splitOn_other del: splitOn.simps)
        ultimately show ?thesis using ih nt False by simp
      qed
    qed
  qed
qed


section \<open>\<open>getType\<close> against the specification\<close>

lemma endsWith_star: "endsWith e ''/*'' \<Longrightarrow> CHR ''*'' \<in> set e"
proof -
  assume a: "endsWith e ''/*''"
  then have "drop (length e - length ''/*'') e = ''/*''" unfolding endsWith_def by blast
  then have "CHR ''*'' \<in> set (drop (length e - length ''/*'') e)" by simp
  then show ?thesis by (rule in_set_dropD)
qed

lemma full_iff [simp]:
  "(includesChar e (CHR ''/'') \<and> \<not> includesChar e (CHR ''*'')) = fullySpecified e"
  by (simp add: includesChar_def fullySpecified_def)

lemma full_not_wild: "fullySpecified e \<Longrightarrow> \<not> endsWith e ''/*'' \<and> e \<noteq> ''*/*''"
  using endsWith_star by (auto simp: fullySpecified_def)

lemma wild_truthy: "typeWildcard t \<Longrightarrow> truthy (Some t) \<and> t \<noteq> ''*/*''"
  by (auto simp: typeWildcard_def endsWith_def)

text \<open>Once \<open>bestGuess\<close> is a \<open>type/*\<close> entry only a fully specified entry replaces it.\<close>

lemma loop_wild:
  "typeWildcard t \<Longrightarrow>
   getType_loop ps (Some t) =
     (case find fullySpecified (map trim ps) of Some e \<Rightarrow> Some e | None \<Rightarrow> Some t)"
proof (induction ps)
  case Nil
  then show ?case by simp
next
  case (Cons p ps)
  have t: "truthy (Some t)" "t \<noteq> ''*/*''" using wild_truthy[OF Cons.prems] by auto
  show ?case
  proof (cases "fullySpecified (trim p)")
    case True
    with t full_not_wild[OF True] show ?thesis
      by (simp add: Let_def split: option.splits)
  next
    case False
    with t Cons show ?thesis
      by (simp add: Let_def split: option.splits)
  qed
qed

text \<open>While \<open>bestGuess\<close> is \<open>*/*\<close> a \<open>type/*\<close> entry or a fully specified one replaces it.\<close>

lemma loop_any:
  "getType_loop ps (Some ''*/*'') =
     (case find fullySpecified (map trim ps) of
        Some e \<Rightarrow> Some e
      | None \<Rightarrow> (case find typeWildcard (map trim ps) of Some e \<Rightarrow> Some e | None \<Rightarrow> Some ''*/*''))"
proof (induction ps)
  case Nil
  then show ?case by simp
next
  case (Cons p ps)
  show ?case
  proof (cases "fullySpecified (trim p)")
    case True
    with full_not_wild[OF True] show ?thesis
      by (simp add: Let_def split: option.splits)
  next
    case nf: False
    show ?thesis
    proof (cases "typeWildcard (trim p)")
      case True
      then have e: "endsWith (trim p) ''/*''" by (simp add: typeWildcard_def)
      from nf True e loop_wild[OF True, of ps] show ?thesis
        by (simp add: Let_def split: option.splits)
    next
      case False
      show ?thesis
      proof (cases "trim p = ''*/*''")
        case True
        have "endsWith ''*/*'' ''/*''" by (simp add: endsWith_def)
        with True nf False Cons show ?thesis by (simp add: Let_def split: option.splits)
      next
        case ne: False
        with False have "\<not> endsWith (trim p) ''/*''" by (simp add: typeWildcard_def)
        with ne nf False Cons show ?thesis
          by (simp add: Let_def split: option.splits)
      qed
    qed
  qed
qed

lemma loop_none: "getType_loop ps None = selectEntry_spec (map trim ps)"
proof (induction ps)
  case Nil
  then show ?case by (simp add: selectEntry_spec_def)
next
  case (Cons p ps)
  show ?case
  proof (cases "fullySpecified (trim p)")
    case True
    with full_not_wild[OF True] show ?thesis
      by (simp add: Let_def selectEntry_spec_def split: option.splits)
  next
    case nf: False
    show ?thesis
    proof (cases "trim p = ''*/*''")
      case True
      have "\<not> typeWildcard ''*/*''" by (simp add: typeWildcard_def)
      with True nf loop_any[of ps] show ?thesis
        by (simp add: Let_def selectEntry_spec_def split: option.splits)
    next
      case ne: False
      show ?thesis
      proof (cases "typeWildcard (trim p)")
        case True
        then have e: "endsWith (trim p) ''/*''" by (simp add: typeWildcard_def)
        from ne nf True e loop_wild[OF True, of ps] show ?thesis
          by (simp add: Let_def selectEntry_spec_def split: option.splits)
      next
        case False
        with ne have "\<not> endsWith (trim p) ''/*''" by (simp add: typeWildcard_def)
        with ne nf False Cons show ?thesis
          by (simp add: Let_def selectEntry_spec_def split: option.splits)
      qed
    qed
  qed
qed

lemma select_truthy: "selectEntry_spec es = Some e \<Longrightarrow> e \<noteq> []"
  by (auto simp: selectEntry_spec_def fullySpecified_def typeWildcard_def endsWith_def find_Some_iff
      split: option.splits)

lemma getType_loop_spec:
  "getType (Some s) (Some d) nw = parseAcceptedType_spec s d nw"
proof (cases "selectEntry_spec (map trim (splitOn (\<lambda>c. c = CHR '','' \<or> c = CHR '';'') s))")
  case None
  then show ?thesis by (simp add: getType_def parseAcceptedType_spec_def loop_none)
next
  case (Some e)
  with select_truthy[OF Some] show ?thesis
    by (simp add: getType_def parseAcceptedType_spec_def loop_none includesChar_def)
qed

text \<open>
  Claim C9. \<open>getType\<close> (the specification's \<open>parseAcceptedType\<close>) splits its input on \<open>,\<close> and
  \<open>;\<close>, trims each entry and returns the first fully specified entry (one with \<open>/\<close> and
  without \<open>*\<close>); failing that the first \<open>type/*\<close> entry (one that ends in \<open>/*\<close> and is not
  \<open>*/*\<close>), then \<open>*/*\<close>; it returns the default when nothing is selected, as for the empty
  or missing input, and when \<open>noWildcard\<close> is set and the selected entry holds a \<open>*\<close>. An
  omitted default is \<open>text/html\<close>.
\<close>

theorem getType_refines_parseAcceptedType:
  "getType (Some s) (Some d) nw = parseAcceptedType_spec s d nw \<and>
   getType (Some s) None nw = parseAcceptedType_spec s ''text/html'' nw \<and>
   getType (Some []) (Some d) nw = d \<and>
   getType None (Some d) nw = d"
proof -
  have a: "getType (Some s) (Some d) nw = parseAcceptedType_spec s d nw"
    by (rule getType_loop_spec)
  have "getType (Some s) None nw = getType (Some s) (Some ''text/html'') nw"
    by (simp add: getType_def)
  then have b: "getType (Some s) None nw = parseAcceptedType_spec s ''text/html'' nw"
    by (simp only: getType_loop_spec)
  have c: "getType (Some []) (Some d) nw = d"
    by (simp add: getType_def trim_def endsWith_def includesChar_def)
  have d: "getType None (Some d) nw = d"
    by (simp add: getType_def trim_def endsWith_def includesChar_def)
  from a b c d show ?thesis by blast
qed

lemma parseAcceptedType_spec_example:
  "parseAcceptedType_spec ''*/*;q=0.8, image/*, image/png'' ''text/html'' True = ''image/png''"
  by code_simp

theorem getType_refines_parseAcceptedType_witness:
  "getType (Some ''*/*;q=0.8, image/*, image/png'') (Some ''text/html'') True = ''image/png''"
  using getType_refines_parseAcceptedType
          [of "''*/*;q=0.8, image/*, image/png''" "''text/html''" True]
  by (simp only: parseAcceptedType_spec_example)


section \<open>The CONNECT target\<close>

lemma colon_not_digit: "\<not> isDigit (CHR '':'')"
  by (simp add: isDigit_def)

lemma bracket_not_digit: "\<not> isDigit (CHR '']'')"
  by (simp add: isDigit_def)

lemma isInteger_no_colon: "isInteger q \<Longrightarrow> \<forall>x\<in>set q. \<not> x = CHR '':''"
  using colon_not_digit unfolding isInteger_def list_all_iff by blast

lemma connectTarget_port:
  assumes "isInteger q"
  shows "connectTarget (h @ '':'' @ q) =
           (h, if 0 \<le> parseInt q \<and> parseInt q \<le> 65535 then parseInt q else 443)"
proof -
  have "splitOn (\<lambda>c. c = CHR '':'') (h @ CHR '':'' # q) = splitOn (\<lambda>c. c = CHR '':'') h @ [q]"
    using isInteger_no_colon[OF assms] by (intro splitOn_append) simp_all
  then show ?thesis
    using assms join_split[of "CHR '':''" h] by (auto simp add: connectTarget_def Let_def)
qed

lemma connectTarget_no_port:
  assumes "\<not> isInteger (last (splitOn (\<lambda>c. c = CHR '':'') u))"
  shows "connectTarget u = (u, 443)"
  using assms join_split[of "CHR '':''" u] by (auto simp add: connectTarget_def Let_def)

lemma connectTarget_bracket:
  assumes "u \<noteq> []" "last u = CHR '']''"
  shows "connectTarget u = (u, 443)"
proof -
  let ?l = "last (splitOn (\<lambda>c. c = CHR '':'') u)"
  have "?l \<noteq> [] \<and> last ?l = CHR '']''"
    using last_splitOn[of u "\<lambda>c. c = CHR '':''"] assms by simp
  then have "CHR '']'' \<in> set ?l" using last_in_set[of ?l] by simp
  then have "\<not> isInteger ?l"
    using bracket_not_digit unfolding isInteger_def list_all_iff by blast
  then show ?thesis by (rule connectTarget_no_port)
qed

lemma connectTarget_digits_only:
  assumes "isInteger u"
  shows "connectTarget u =
           ([], if 0 \<le> parseInt u \<and> parseInt u \<le> 65535 then parseInt u else 443)"
proof -
  have "splitOn (\<lambda>c. c = CHR '':'') u = [u]"
    using isInteger_no_colon[OF assms] by (intro splitOn_free) simp
  with assms show ?thesis by (auto simp add: connectTarget_def Let_def)
qed

text \<open>
  Claim C5, as stated, at the target \<open>example.test:70000\<close>: the final segment is all digits
  but beyond 65535, so by the claim it is not consumed and stays in the host; the engine
  has popped it before it looks at the range, and the host is \<open>example.test\<close>.
\<close>

theorem connectTarget_out_of_range_port_consumed:
  "connectTarget ''example.test:70000'' = (''example.test'', 443) \<and>
   parseTarget_spec ''example.test:70000'' = (''example.test:70000'', 443)"
  by code_simp

text \<open>
  Claim C5, amended. The engine splits the target on \<open>:\<close>. A final segment that is all
  digits is consumed whatever its value, and the port is that value when it lies in
  \<open>[0,65535]\<close> and 443 otherwise: a target \<open>h:q\<close> with \<open>q\<close> all digits has host \<open>h\<close>, whatever
  colons \<open>h\<close> holds, and a target that is all digits has the empty host. When the final
  segment is not all digits nothing is consumed: the port is 443 and the host is the whole
  target; this is so for every target that ends in \<open>]\<close>, a bracketed IPv6 literal.
\<close>

theorem connectTarget_consumes_digits:
  "(isInteger q \<longrightarrow>
      connectTarget (h @ '':'' @ q) =
        (h, if 0 \<le> parseInt q \<and> parseInt q \<le> 65535 then parseInt q else 443)) \<and>
   (isInteger u \<longrightarrow>
      connectTarget u = ([], if 0 \<le> parseInt u \<and> parseInt u \<le> 65535 then parseInt u else 443)) \<and>
   (\<not> isInteger (last (splitOn (\<lambda>c. c = CHR '':'') u)) \<longrightarrow> connectTarget u = (u, 443)) \<and>
   (v \<noteq> [] \<and> last v = CHR '']'' \<longrightarrow> connectTarget v = (v, 443))"
  using connectTarget_port[of q h] connectTarget_digits_only[of u] connectTarget_no_port[of u]
    connectTarget_bracket[of v]
  by blast

theorem connectTarget_consumes_digits_witness:
  "connectTarget ''[::1]:8443'' = (''[::1]'', 8443) \<and>
   connectTarget ''example.test:70000'' = (''example.test'', 443) \<and>
   connectTarget ''8080'' = ([], 8080) \<and>
   connectTarget ''example.test'' = (''example.test'', 443) \<and>
   connectTarget ''[2001:db8::1]'' = (''[2001:db8::1]'', 443)"
proof -
  have a: "isInteger ''8443''" "parseInt ''8443'' = 8443" by code_simp+
  have b: "isInteger ''70000''" "parseInt ''70000'' = 70000" by code_simp+
  have c: "isInteger ''8080''" "parseInt ''8080'' = 8080" by code_simp+
  have d: "\<not> isInteger (last (splitOn (\<lambda>c. c = CHR '':'') ''example.test''))" by code_simp
  have 1: "connectTarget ''[::1]:8443'' = (''[::1]'', 8443)"
    using connectTarget_consumes_digits[of "''8443''" "''[::1]''"] a by simp
  have 2: "connectTarget ''example.test:70000'' = (''example.test'', 443)"
    using connectTarget_consumes_digits[of "''70000''" "''example.test''"] b by simp
  have 3: "connectTarget ''8080'' = ([], 8080)"
    using connectTarget_consumes_digits[of _ _ "''8080''"] c by simp
  have 4: "connectTarget ''example.test'' = (''example.test'', 443)"
    using connectTarget_consumes_digits[of _ _ "''example.test''"] d by blast
  have 5: "connectTarget ''[2001:db8::1]'' = (''[2001:db8::1]'', 443)"
    using connectTarget_consumes_digits[of _ _ _ "''[2001:db8::1]''"] by simp
  from 1 2 3 4 5 show ?thesis by blast
qed


section \<open>The handshake test\<close>

lemma loopback_connects: "NetConnect p ho \<in> set (loopback e q localHead what) \<Longrightarrow> p = q \<and> ho = None"
  by (auto simp: loopback_def splice_def split: connected.splits)

lemma tlsPath_first:
  "hd (fst (tlsPath e srv localHead h)) = NextTick \<or> hd (fst (tlsPath e srv localHead h)) = Sign h"
  by (simp add: tlsPath_def Let_def split: prepared.splits option.splits)

lemma tlsPath_connects:
  "NetConnect p ho \<in> set (fst (tlsPath e srv localHead h)) \<Longrightarrow> p = listenPort srv \<and> ho = None"
  by (auto simp: tlsPath_def Let_def split: prepared.splits option.splits dest: loopback_connects)

lemma webSocketPath_first:
  "hd (fst (webSocketPath e srv localHead)) = NetConnect 12345 None"
  by (simp add: webSocketPath_def loopback_def)

lemma onHandshake_three:
  assumes "3 \<le> length localHead"
  shows "onHandshake e srv localHead h =
          (if localHead ! 0 = 0x16 \<and> localHead ! 1 = 0x03 \<and> localHead ! 2 < 0x06
           then tlsPath e srv localHead h else webSocketPath e srv localHead)"
proof -
  from assms obtain b0 b1 b2 bs where l: "localHead = b0 # b1 # b2 # bs"
    by (cases localHead; cases "tl localHead"; cases "tl (tl localHead)") auto
  show ?thesis unfolding l by (simp add: onHandshake_def)
qed

text \<open>
  Claim C4. For every head of at least 3 bytes \<open>onHandshake\<close> takes the TLS path if and only
  if \<open>head[0] = 0x16\<close>, \<open>head[1] = 0x03\<close> and \<open>head[2] < 0x06\<close>, and the loopback to the main
  proxy port otherwise: the heads \<open>16 03 05\<close> and \<open>16 03 06\<close> go to the TLS path and to the
  other one. The TLS path starts with \<open>prepare\<close> (the callback on the next tick, or
  \<open>tls.sign\<close>) and connects to the dynamic server's port only; the other path starts with the
  connection to port 12345.
\<close>

theorem onHandshake_dispatch:
  "(3 \<le> length localHead \<longrightarrow>
      onHandshake e srv localHead h =
        (if localHead ! 0 = 0x16 \<and> localHead ! 1 = 0x03 \<and> localHead ! 2 < 0x06
         then tlsPath e srv localHead h else webSocketPath e srv localHead)) \<and>
   onHandshake e srv [0x16, 0x03, 0x05] h = tlsPath e srv [0x16, 0x03, 0x05] h \<and>
   onHandshake e srv [0x16, 0x03, 0x06] h = webSocketPath e srv [0x16, 0x03, 0x06] \<and>
   (hd (fst (tlsPath e srv localHead h)) = NextTick \<or>
    hd (fst (tlsPath e srv localHead h)) = Sign h) \<and>
   (\<forall>p ho. NetConnect p ho \<in> set (fst (tlsPath e srv localHead h)) \<longrightarrow>
      p = listenPort srv \<and> ho = None) \<and>
   hd (fst (webSocketPath e srv localHead)) = NetConnect 12345 None"
proof -
  have a: "onHandshake e srv [0x16, 0x03, 0x05] h = tlsPath e srv [0x16, 0x03, 0x05] h"
    by (simp add: onHandshake_def)
  have b: "onHandshake e srv [0x16, 0x03, 0x06] h = webSocketPath e srv [0x16, 0x03, 0x06]"
    by (simp add: onHandshake_def)
  from a b onHandshake_three[of localHead e srv h] tlsPath_first[of e srv localHead h]
    tlsPath_connects[of _ _ e srv localHead h] webSocketPath_first[of e srv localHead]
  show ?thesis by blast
qed

theorem onHandshake_dispatch_witness:
  "onHandshake sampleCenv newDynamicServer [0x16, 0x03, 0x01, 0x02] ''example.test'' =
     tlsPath sampleCenv newDynamicServer [0x16, 0x03, 0x01, 0x02] ''example.test'' \<and>
   onHandshake sampleCenv newDynamicServer [0x47, 0x45, 0x54] ''example.test'' =
     webSocketPath sampleCenv newDynamicServer [0x47, 0x45, 0x54] \<and>
   fst (tlsPath sampleCenv newDynamicServer [0x16, 0x03, 0x01, 0x02] ''example.test'') =
     [Sign ''example.test'', AddContext ''example.test'' ''certificate of example.test'',
      NetConnect 12346 None, PipeToConnection, PipeToClient, EmitData [0x16, 0x03, 0x01, 0x02],
      Resume]"
proof -
  have 1: "onHandshake sampleCenv newDynamicServer [0x16, 0x03, 0x01, 0x02] ''example.test'' =
     tlsPath sampleCenv newDynamicServer [0x16, 0x03, 0x01, 0x02] ''example.test''"
    using onHandshake_dispatch[of "[0x16, 0x03, 0x01, 0x02]" sampleCenv newDynamicServer "''example.test''"]
    by simp
  have 2: "onHandshake sampleCenv newDynamicServer [0x47, 0x45, 0x54] ''example.test'' =
     webSocketPath sampleCenv newDynamicServer [0x47, 0x45, 0x54]"
    using onHandshake_dispatch[of "[0x47, 0x45, 0x54]" sampleCenv newDynamicServer "''example.test''"]
    by simp
  have 3: "fst (tlsPath sampleCenv newDynamicServer [0x16, 0x03, 0x01, 0x02] ''example.test'') =
     [Sign ''example.test'', AddContext ''example.test'' ''certificate of example.test'',
      NetConnect 12346 None, PipeToConnection, PipeToClient, EmitData [0x16, 0x03, 0x01, 0x02],
      Resume]"
    by (simp add: tlsPath_def prepare_def newDynamicServer_def sampleCenv_def loopback_def
        splice_def)
  from 1 2 3 show ?thesis by blast
qed


section \<open>The reply to an intercepted CONNECT\<close>

lemma reply200_first: "reply200 req = SocketWrite (established req) # tl (reply200 req)"
  by (simp add: reply200_def)

lemma connectEngine_short_head:
  assumes "length localHead < 3" "onConnect e (connectName req) counter = Some d" "result d = Allow"
  shows "\<exists>tr. fst (connectEngine e srv counter req localHead arriving) =
      [Log INFO (''Received a CONNECT request: '' @ url req), Pause,
       CallOnConnect (connectName req) counter] @
      (SocketWrite (established req) # tl (reply200 req)) @ Resume # tr"
proof -
  obtain h p where t: "connectTarget (url req) = (h, p)" by (cases "connectTarget (url req)")
  obtain tr srv1 where hd: "handler e srv h localHead arriving = (tr, srv1)"
    by (cases "handler e srv h localHead arriving")
  have "fst (connectEngine e srv counter req localHead arriving) =
      [Log INFO (''Received a CONNECT request: '' @ url req), Pause,
       CallOnConnect (connectName req) counter] @ reply200 req @ Resume # tr"
    using assms t hd by (simp add: connectEngine_def Let_def)
  then show ?thesis by (subst (asm) reply200_first) blast
qed

text \<open>
  Claim C6, as stated, at a head that already holds the 3 bytes \<open>16 03 01\<close>, decision Allow:
  the engine goes straight to the handshake test and splices the client with the dynamic
  server; no \<open>200 Connection Established\<close> is written before the bytes of the loopback
  reach the client, nor at all.
\<close>

theorem forwarding_without_established:
  "fst (connectEngine sampleCenv newDynamicServer 0 sampleConnect [0x16, 0x03, 0x01] []) =
     [Log INFO ''Received a CONNECT request: example.test:443'', Pause,
      CallOnConnect ''example.test:443'' 0, Sign ''example.test'',
      AddContext ''example.test'' ''certificate of example.test'',
      NetConnect 12346 None, PipeToConnection, PipeToClient,
      EmitData [0x16, 0x03, 0x01], Resume] \<and>
   \<not> precedes (isEstablished sampleConnect) forwardsToClient
        (fst (connectEngine sampleCenv newDynamicServer 0 sampleConnect [0x16, 0x03, 0x01] []))"
  by code_simp

text \<open>
  Claim C6, amended. For every intercepted CONNECT transaction (decision Allow) whose head
  holds fewer than 3 bytes, the \<open>200 Connection Established\<close> reply is written to the client,
  and before any byte of the loopback is forwarded to the client.
\<close>

theorem established_before_forwarding:
  "length localHead < 3 \<and> onConnect e (connectName req) counter = Some d \<and> result d = Allow \<longrightarrow>
     precedes (isEstablished req) forwardsToClient
       (fst (connectEngine e srv counter req localHead arriving)) \<and>
     SocketWrite (established req) \<in> set (fst (connectEngine e srv counter req localHead arriving))"
proof (intro impI)
  assume a: "length localHead < 3 \<and> onConnect e (connectName req) counter = Some d \<and>
             result d = Allow"
  then obtain tr where eq: "fst (connectEngine e srv counter req localHead arriving) =
      [Log INFO (''Received a CONNECT request: '' @ url req), Pause,
       CallOnConnect (connectName req) counter] @
      (SocketWrite (established req) # tl (reply200 req)) @ Resume # tr"
    using connectEngine_short_head[of localHead e req counter d srv arriving] by blast
  show "precedes (isEstablished req) forwardsToClient
       (fst (connectEngine e srv counter req localHead arriving)) \<and>
     SocketWrite (established req) \<in> set (fst (connectEngine e srv counter req localHead arriving))"
    unfolding eq by (simp add: isEstablished_def forwardsToClient_def)
qed

theorem established_before_forwarding_witness:
  "fst (connectEngine sampleCenv newDynamicServer 0 sampleConnect [0x16] [[0x03], [0x01, 0x00]]) =
     [Log INFO ''Received a CONNECT request: example.test:443'', Pause,
      CallOnConnect ''example.test:443'' 0,
      SocketWrite (''HTTP/1.1 200 Connection Established'' @ [CHR 0x0D, CHR 0x0A]),
      SocketWrite [CHR 0x0D, CHR 0x0A], Resume, Pause, Sign ''example.test'',
      AddContext ''example.test'' ''certificate of example.test'',
      NetConnect 12346 None, PipeToConnection, PipeToClient,
      EmitData [0x16, 0x03, 0x01, 0x00], Resume] \<and>
   precedes (isEstablished sampleConnect) forwardsToClient
     (fst (connectEngine sampleCenv newDynamicServer 0 sampleConnect [0x16] [[0x03], [0x01, 0x00]]))"
proof -
  have h: "length [0x16 :: byte] < 3 \<and>
        onConnect sampleCenv (connectName sampleConnect) 0 = Some (sampleDecision Allow) \<and>
        result (sampleDecision Allow) = Allow"
    by (simp add: sampleCenv_def sampleDecision_def)
  have t: "fst (connectEngine sampleCenv newDynamicServer 0 sampleConnect [0x16] [[0x03], [0x01, 0x00]]) =
     [Log INFO ''Received a CONNECT request: example.test:443'', Pause,
      CallOnConnect ''example.test:443'' 0,
      SocketWrite (''HTTP/1.1 200 Connection Established'' @ [CHR 0x0D, CHR 0x0A]),
      SocketWrite [CHR 0x0D, CHR 0x0A], Resume, Pause, Sign ''example.test'',
      AddContext ''example.test'' ''certificate of example.test'',
      NetConnect 12346 None, PipeToConnection, PipeToClient,
      EmitData [0x16, 0x03, 0x01, 0x00], Resume]"
    by code_simp
  from established_before_forwarding
         [of "[0x16]" sampleCenv sampleConnect 0 "sampleDecision Allow" newDynamicServer
             "[[0x03], [0x01, 0x00]]"] h
  have "precedes (isEstablished sampleConnect) forwardsToClient
     (fst (connectEngine sampleCenv newDynamicServer 0 sampleConnect [0x16] [[0x03], [0x01, 0x00]]))"
    by blast
  with t show ?thesis by blast
qed


section \<open>Signing once\<close>

lemma signedOnce_occur:
  assumes "signedOnce w h" "oc \<noteq> PrepareCall h \<or> h \<notin> set (inFlight w)"
  shows "signedOnce (occur w oc) h"
proof (cases oc)
  case (PrepareCall g)
  show ?thesis
  proof (cases "g = h")
    case True
    with assms PrepareCall show ?thesis
      by (auto simp: signedOnce_def signCount_def prepare_def)
  next
    case False
    with assms PrepareCall show ?thesis
      by (auto simp: signedOnce_def signCount_def prepare_def)
  qed
next
  case (SignCompletes g c)
  show ?thesis
  proof (cases "g = h")
    case True
    with assms SignCompletes show ?thesis
      by (auto simp: signedOnce_def signCount_def signDone_def)
  next
    case False
    with assms SignCompletes show ?thesis
      by (auto simp: signedOnce_def signCount_def signDone_def)
  qed
qed

lemma signedOnce_run:
  "signedOnce w h \<Longrightarrow> serialFor h w ocs \<Longrightarrow> signedOnce (run w ocs) h"
proof (induction ocs arbitrary: w)
  case Nil
  then show ?case by simp
next
  case (Cons oc ocs)
  have s1: "oc \<noteq> PrepareCall h \<or> h \<notin> set (inFlight w)" using Cons.prems(2) by simp
  have s2: "serialFor h (occur w oc) ocs" using Cons.prems(2) by simp
  from Cons.IH[OF signedOnce_occur[OF Cons.prems(1) s1] s2] show ?case by simp
qed

lemma known_grows: "h \<in> set (knownHosts (server w)) \<Longrightarrow> h \<in> set (knownHosts (server (run w ocs)))"
proof (induction ocs arbitrary: w)
  case Nil
  then show ?case by simp
next
  case (Cons oc ocs)
  have "h \<in> set (knownHosts (server (occur w oc)))"
    using Cons.prems by (cases oc) (auto simp: signDone_def split: prepared.splits)
  from Cons.IH[OF this] show ?case by simp
qed

text \<open>
  Claim C7, as stated, at two calls of \<open>prepare\<close> for one host with the second made before
  the first signature has called back: the host is not yet known, and \<open>tls.sign\<close> is called
  twice.
\<close>

theorem prepare_overlapping_signs_twice:
  "signCount (run newWorld [PrepareCall ''example.test'', PrepareCall ''example.test''])
     ''example.test'' = 2"
  by (simp add: signCount_def newWorld_def newDynamicServer_def prepare_def)

text \<open>
  Claim C7, amended. A call \<open>prepare(H)\<close> that finds \<open>H\<close> among the known hosts puts its
  callback on the next tick and does not sign, and a known host stays known; a call that
  does not find \<open>H\<close> there calls \<open>tls.sign\<close> and leaves the known hosts as they are; a
  signature of \<open>H\<close> that completes makes \<open>H\<close> known. So in every run in which no \<open>prepare(H)\<close>
  is called while a signature of \<open>H\<close> is under way, \<open>tls.sign\<close> is called for \<open>H\<close> at most
  once, whatever is called, overlapping or not, for other hosts.
\<close>

theorem prepare_signs_once_when_serial:
  "(h \<in> set (knownHosts srv) \<longrightarrow> prepare srv h = CallbackNextTick) \<and>
   (h \<in> set (knownHosts (server w)) \<longrightarrow>
      performed (occur w (PrepareCall h)) = performed w @ [NextTick] \<and>
      h \<in> set (knownHosts (server (run w ocs)))) \<and>
   (h \<notin> set (knownHosts (server w)) \<longrightarrow>
      performed (occur w (PrepareCall h)) = performed w @ [Sign h] \<and>
      server (occur w (PrepareCall h)) = server w) \<and>
   (h \<in> set (inFlight w) \<longrightarrow> h \<in> set (knownHosts (server (occur w (SignCompletes h c))))) \<and>
   (serialFor h newWorld ocs \<longrightarrow> signCount (run newWorld ocs) h \<le> 1)"
proof -
  have a: "h \<in> set (knownHosts srv) \<longrightarrow> prepare srv h = CallbackNextTick"
    by (simp add: prepare_def)
  have b: "h \<in> set (knownHosts (server w)) \<longrightarrow>
      performed (occur w (PrepareCall h)) = performed w @ [NextTick] \<and>
      h \<in> set (knownHosts (server (run w ocs)))"
    using known_grows[of h w ocs] by (simp add: prepare_def)
  have b': "h \<notin> set (knownHosts (server w)) \<longrightarrow>
      performed (occur w (PrepareCall h)) = performed w @ [Sign h] \<and>
      server (occur w (PrepareCall h)) = server w"
    by (simp add: prepare_def)
  have c: "h \<in> set (inFlight w) \<longrightarrow> h \<in> set (knownHosts (server (occur w (SignCompletes h c))))"
    by (simp add: signDone_def)
  have "signedOnce newWorld h"
    by (simp add: signedOnce_def signCount_def newWorld_def)
  then have d: "serialFor h newWorld ocs \<longrightarrow> signCount (run newWorld ocs) h \<le> 1"
    using signedOnce_run[of newWorld h ocs] by (auto simp: signedOnce_def)
  from a b b' c d show ?thesis by blast
qed

theorem prepare_signs_once_when_serial_witness:
  "serialFor ''example.test'' newWorld
     [PrepareCall ''other.test'', PrepareCall ''example.test'', PrepareCall ''other.test'',
      SignCompletes ''example.test'' ''c'', PrepareCall ''example.test''] \<and>
   signCount
     (run newWorld
        [PrepareCall ''other.test'', PrepareCall ''example.test'', PrepareCall ''other.test'',
         SignCompletes ''example.test'' ''c'', PrepareCall ''example.test''])
     ''example.test'' \<le> 1 \<and>
   performed
     (run newWorld
        [PrepareCall ''other.test'', PrepareCall ''example.test'', PrepareCall ''other.test'',
         SignCompletes ''example.test'' ''c'', PrepareCall ''example.test'']) =
     [Sign ''other.test'', Sign ''example.test'', Sign ''other.test'',
      AddContext ''example.test'' ''c'', NextTick]"
proof -
  let ?ocs = "[PrepareCall ''other.test'', PrepareCall ''example.test'',
               PrepareCall ''other.test'', SignCompletes ''example.test'' ''c'',
               PrepareCall ''example.test'']"
  have s: "serialFor ''example.test'' newWorld ?ocs"
    by (simp add: newWorld_def newDynamicServer_def prepare_def signDone_def)
  have p: "performed (run newWorld ?ocs) =
     [Sign ''other.test'', Sign ''example.test'', Sign ''other.test'',
      AddContext ''example.test'' ''c'', NextTick]"
    by (simp add: newWorld_def newDynamicServer_def prepare_def signDone_def)
  from prepare_signs_once_when_serial[of "''example.test''" _ _ ?ocs] s
  have "signCount (run newWorld ?ocs) ''example.test'' \<le> 1" by blast
  with s p show ?thesis by blast
qed


section \<open>The upstream request\<close>

lemma onDone_no_request: "Request s opts p \<notin> set (onDone e res b hs)"
  by (simp add: onDone_def Let_def)

lemma finalize_no_request: "Request s opts p \<notin> set (finalize e res r u t d i)"
  by (simp add: finalize_def onDone_no_request split: option.splits prod.splits)

lemma remoteEnd_no_request: "Request s opts p \<notin> set (remoteEnd e hs u i res)"
  by (simp add: remoteEnd_def Let_def finalize_no_request split: sum.splits)

lemma upstreamReply_no_request: "Request s opts p \<notin> set (upstreamReply e hs u i out)"
  by (simp add: upstreamReply_def remoteEnd_no_request split: upstream.splits)

lemma proxyRequest_request:
  "Request s opts p \<in> set (proxyRequest e opts0 hs u payload i) \<Longrightarrow> opts = opts0 \<and> p = payload"
  by (simp add: proxyRequest_def Let_def upstreamReply_no_request)

lemma proxyRequest_issues:
  "\<exists>s. Request s opts payload \<in> set (proxyRequest e opts hs u payload i)"
  by (rule exI[of _ "protocol (target opts) = Some ''https:''"]) (simp add: proxyRequest_def Let_def)

lemma onDecision_request:
  "Request s opts p \<in> set (onDecision e opts0 u i d payload hs0) \<Longrightarrow>
   oheaders opts = AList.update ''accept-encoding'' (HStr ''gzip, deflate'') hs0"
  by (auto simp: onDecision_def Let_def
      split: requestDecision.splits sum.splits nullable.splits dest!: proxyRequest_request)

lemma onEnd_request:
  "Request s opts p \<in> set (fst (onEnd e c req opts0 cs)) \<Longrightarrow>
   \<exists>hs0. oheaders opts = AList.update ''accept-encoding'' (HStr ''gzip, deflate'') hs0"
  by (auto simp: onEnd_def Let_def split: option.splits if_splits dest: onDecision_request)

lemma requestEngine_request:
  "Request s opts p \<in> set (fst (requestEngine e c req)) \<Longrightarrow>
   \<exists>hs0. oheaders opts = AList.update ''accept-encoding'' (HStr ''gzip, deflate'') hs0"
proof -
  assume a: "Request s opts p \<in> set (fst (requestEngine e c req))"
  show ?thesis
  proof (cases "url_parse e (url req)")
    case (Inl msg)
    with a show ?thesis by (simp add: requestEngine_def Let_def)
  next
    case (Inr parsed)
    show ?thesis
    proof (cases "stream req")
      case (ReqError msg)
      with a Inr show ?thesis
        by (simp add: requestEngine_def Let_def split: if_splits)
    next
      case (ReqEnd cs)
      let ?opts = "\<lparr>target = parsed\<lparr>auth := req_auth req\<rparr>, omethod = rmethod req,
                    oheaders = headers req,
                    oagent = getAgent e (httpVersion req) (headers req)
                               (protocol parsed = Some ''https:'')\<rparr>"
      obtain tr c1 where oe: "onEnd e c req ?opts cs = (tr, c1)"
        by (cases "onEnd e c req ?opts cs")
      with a Inr ReqEnd have "Request s opts p \<in> set tr"
        by (simp add: requestEngine_def Let_def split: if_splits)
      then have "Request s opts p \<in> set (fst (onEnd e c req ?opts cs))" by (simp add: oe)
      then show ?thesis by (rule onEnd_request)
    qed
  qed
qed

lemma requestEngine_consults:
  assumes "url_parse e (url req) = Inr parsed" "url req \<noteq> []" "hd (url req) \<noteq> CHR ''/''"
    "stream req = ReqEnd cs"
    "onRequest e (map_of (headers req) ''referer'') (url req) (concat cs) (headers req) counter =
       Some (d, patched, hs)"
  shows "fst (requestEngine e counter req) =
     Log INFO (''Received a REQUEST request: '' @ url req) #
     (if rmethod req = ''GET'' \<and> concat cs \<noteq> []
      then [Log WARNING ''Received a GET request with a payload.''] else []) @
     CallOnRequest (map_of (headers req) ''referer'') (url req) (concat cs) (headers req) counter #
     onDecision e
       \<lparr>target = parsed\<lparr>auth := req_auth req\<rparr>, omethod = rmethod req,
        oheaders = headers req,
        oagent = getAgent e (httpVersion req) (headers req) (protocol parsed = Some ''https:'')\<rparr>
       (url req) counter d patched hs"
proof -
  from assms(2,3) have "\<not> (case url req of [] \<Rightarrow> True | c # cs \<Rightarrow> c = CHR ''/'')"
    by (cases "url req") simp_all
  with assms(1,4,5) show ?thesis
    by (simp add: requestEngine_def onEnd_def Let_def)
qed

lemma onDecision_deny: "result d = Deny \<Longrightarrow> onDecision e opts u i d payload hs = [Destroy]"
  by (simp add: onDecision_def Let_def)

lemma onDecision_issues:
  assumes "result d = Allow \<or>
     (result d = Redirect \<and> redirectLocation d = Value location \<and>
      url_parse e location = Inr parsed1)"
  shows "\<exists>s opts1. Request s opts1 payload \<in> set (onDecision e opts u i d payload hs)"
proof -
  from assms show ?thesis
  proof
    assume "result d = Allow"
    then show ?thesis
      using proxyRequest_issues by (simp add: onDecision_def Let_def) blast
  next
    assume "result d = Redirect \<and> redirectLocation d = Value location \<and>
      url_parse e location = Inr parsed1"
    then show ?thesis
      using proxyRequest_issues by (simp add: onDecision_def Let_def) blast
  qed
qed

text \<open>
  Claim C8. When the request patcher, consulted for a transaction, returns Deny, the client's
  response stream is destroyed, once and as the last thing the engine does; nothing is
  written to the client and no upstream request is opened.
\<close>

theorem deny_destroys_without_reply:
  "url_parse e (url req) = Inr parsed \<and> url req \<noteq> [] \<and> hd (url req) \<noteq> CHR ''/'' \<and>
   stream req = ReqEnd cs \<and>
   onRequest e (map_of (headers req) ''referer'') (url req) (concat cs) (headers req) counter =
     Some (d, patched, hs) \<and>
   result d = Deny \<longrightarrow>
     \<not> list_ex writesToClient (fst (requestEngine e counter req)) \<and>
     \<not> list_ex opensUpstream (fst (requestEngine e counter req)) \<and>
     last (fst (requestEngine e counter req)) = Destroy \<and>
     count_list (fst (requestEngine e counter req)) Destroy = 1"
proof (intro impI)
  assume a: "url_parse e (url req) = Inr parsed \<and> url req \<noteq> [] \<and> hd (url req) \<noteq> CHR ''/'' \<and>
   stream req = ReqEnd cs \<and>
   onRequest e (map_of (headers req) ''referer'') (url req) (concat cs) (headers req) counter =
     Some (d, patched, hs) \<and>
   result d = Deny"
  then have tr: "fst (requestEngine e counter req) =
     Log INFO (''Received a REQUEST request: '' @ url req) #
     (if rmethod req = ''GET'' \<and> concat cs \<noteq> []
      then [Log WARNING ''Received a GET request with a payload.''] else []) @
     [CallOnRequest (map_of (headers req) ''referer'') (url req) (concat cs) (headers req) counter,
      Destroy]"
    using requestEngine_consults[of e req parsed cs counter d patched hs]
    by (simp add: onDecision_deny)
  show "\<not> list_ex writesToClient (fst (requestEngine e counter req)) \<and>
     \<not> list_ex opensUpstream (fst (requestEngine e counter req)) \<and>
     last (fst (requestEngine e counter req)) = Destroy \<and>
     count_list (fst (requestEngine e counter req)) Destroy = 1"
    unfolding tr by (simp add: writesToClient_def opensUpstream_def)
qed

theorem deny_destroys_without_reply_witness:
  "fst (requestEngine (sampleEnv Deny (sampleRes [] [])) 0 sampleReq) =
     [Log INFO ''Received a REQUEST request: http://example.test/'',
      CallOnRequest None ''http://example.test/'' []
        [(''host'', HStr ''example.test''), (''accept-encoding'', HStr ''br'')] 0,
      Destroy] \<and>
   \<not> list_ex writesToClient (fst (requestEngine (sampleEnv Deny (sampleRes [] [])) 0 sampleReq)) \<and>
   \<not> list_ex opensUpstream (fst (requestEngine (sampleEnv Deny (sampleRes [] [])) 0 sampleReq))"
proof -
  let ?e = "sampleEnv Deny (sampleRes [] [])"
  have h: "url_parse ?e (url sampleReq) = Inr sampleUrl \<and> url sampleReq \<noteq> [] \<and>
     hd (url sampleReq) \<noteq> CHR ''/'' \<and> stream sampleReq = ReqEnd [] \<and>
     onRequest ?e (map_of (headers sampleReq) ''referer'') (url sampleReq) (concat [])
       (headers sampleReq) 0 = Some (sampleDecision Deny, BufferBody [], headers sampleReq) \<and>
     result (sampleDecision Deny) = Deny"
    by (simp add: sampleEnv_def sampleReq_def sampleDecision_def)
  have t: "fst (requestEngine ?e 0 sampleReq) =
     [Log INFO ''Received a REQUEST request: http://example.test/'',
      CallOnRequest None ''http://example.test/'' []
        [(''host'', HStr ''example.test''), (''accept-encoding'', HStr ''br'')] 0,
      Destroy]"
    by code_simp
  from deny_destroys_without_reply
         [of ?e sampleReq sampleUrl "[]" 0 "sampleDecision Deny" "BufferBody []" "headers sampleReq"] h
  have "\<not> list_ex writesToClient (fst (requestEngine ?e 0 sampleReq)) \<and>
        \<not> list_ex opensUpstream (fst (requestEngine ?e 0 sampleReq))"
    by blast
  with t show ?thesis by blast
qed

text \<open>
  Claim C3. Every upstream request the engine issues carries the header
  \<open>accept-encoding: gzip, deflate\<close>, whatever the client sent and whatever the patcher left
  in the header object; and the engine does issue an upstream request when the patcher,
  consulted for the transaction, returns Allow, or Redirect with a location that parses.
\<close>

theorem upstream_request_accept_encoding:
  "(Request secure opts payload \<in> set (fst (requestEngine e counter req)) \<longrightarrow>
      map_of (oheaders opts) ''accept-encoding'' = Some (HStr ''gzip, deflate'')) \<and>
   (url_parse e (url req) = Inr parsed \<and> url req \<noteq> [] \<and> hd (url req) \<noteq> CHR ''/'' \<and>
    stream req = ReqEnd cs \<and>
    onRequest e (map_of (headers req) ''referer'') (url req) (concat cs) (headers req) counter =
      Some (d, patched, hs) \<and>
    (result d = Allow \<or>
     (result d = Redirect \<and> redirectLocation d = Value location \<and>
      url_parse e location = Inr parsed1)) \<longrightarrow>
      (\<exists>secure1 opts1. Request secure1 opts1 patched \<in> set (fst (requestEngine e counter req))))"
proof (intro conjI impI)
  assume "Request secure opts payload \<in> set (fst (requestEngine e counter req))"
  then obtain hs0 where
    "oheaders opts = AList.update ''accept-encoding'' (HStr ''gzip, deflate'') hs0"
    using requestEngine_request by blast
  then show "map_of (oheaders opts) ''accept-encoding'' = Some (HStr ''gzip, deflate'')"
    by (simp add: update_conv')
next
  assume a: "url_parse e (url req) = Inr parsed \<and> url req \<noteq> [] \<and> hd (url req) \<noteq> CHR ''/'' \<and>
    stream req = ReqEnd cs \<and>
    onRequest e (map_of (headers req) ''referer'') (url req) (concat cs) (headers req) counter =
      Some (d, patched, hs) \<and>
    (result d = Allow \<or>
     (result d = Redirect \<and> redirectLocation d = Value location \<and>
      url_parse e location = Inr parsed1))"
  let ?opts = "\<lparr>target = parsed\<lparr>auth := req_auth req\<rparr>, omethod = rmethod req,
        oheaders = headers req,
        oagent = getAgent e (httpVersion req) (headers req) (protocol parsed = Some ''https:'')\<rparr>"
  from a obtain s opts1 where
    "Request s opts1 patched \<in> set (onDecision e ?opts (url req) counter d patched hs)"
    using onDecision_issues[of d location e parsed1 patched ?opts "url req" counter hs] by blast
  moreover from a have "set (onDecision e ?opts (url req) counter d patched hs) \<subseteq>
      set (fst (requestEngine e counter req))"
    using requestEngine_consults[of e req parsed cs counter d patched hs] by auto
  ultimately show "\<exists>secure1 opts1. Request secure1 opts1 patched \<in> set (fst (requestEngine e counter req))"
    by blast
qed

theorem upstream_request_accept_encoding_witness:
  "(\<exists>secure opts. Request secure opts (BufferBody []) \<in>
       set (fst (requestEngine (sampleEnv Allow (sampleRes [] [])) 0 sampleReq)) \<and>
     map_of (oheaders opts) ''accept-encoding'' = Some (HStr ''gzip, deflate'')) \<and>
   map_of (headers sampleReq) ''accept-encoding'' = Some (HStr ''br'')"
proof -
  let ?e = "sampleEnv Allow (sampleRes [] [])"
  have h: "url_parse ?e (url sampleReq) = Inr sampleUrl \<and> url sampleReq \<noteq> [] \<and>
     hd (url sampleReq) \<noteq> CHR ''/'' \<and> stream sampleReq = ReqEnd [] \<and>
     onRequest ?e (map_of (headers sampleReq) ''referer'') (url sampleReq) (concat [])
       (headers sampleReq) 0 = Some (sampleDecision Allow, BufferBody [], headers sampleReq) \<and>
     (result (sampleDecision Allow) = Allow \<or>
      (result (sampleDecision Allow) = Redirect \<and>
       redirectLocation (sampleDecision Allow) = Value [] \<and>
       url_parse ?e [] = Inr sampleUrl))"
    by (simp add: sampleEnv_def sampleReq_def sampleDecision_def)
  have b: "map_of (headers sampleReq) ''accept-encoding'' = Some (HStr ''br'')"
    by (simp add: sampleReq_def)
  from upstream_request_accept_encoding
         [of _ _ _ ?e 0 sampleReq sampleUrl "[]" "sampleDecision Allow" "BufferBody []"
             "headers sampleReq" "[]" sampleUrl] h
  obtain secure opts where
    r: "Request secure opts (BufferBody []) \<in> set (fst (requestEngine ?e 0 sampleReq))"
    by blast
  with upstream_request_accept_encoding[of secure opts "BufferBody []" ?e 0 sampleReq]
  have "map_of (oheaders opts) ''accept-encoding'' = Some (HStr ''gzip, deflate'')" by blast
  with r b show ?thesis by blast
qed


section \<open>The upstream response\<close>

lemma onDone_events:
  "onDone e res b hs =
     [WriteHead (statusCode res) (statusMessage res)
        (AList.delete ''Public-Key-Pins''
           (AList.update ''content-length'' (HNum (byteLength e b)) hs)),
      Write b, End]"
  by (simp add: onDone_def Let_def)

text \<open>The header object written to the client: its \<open>content-length\<close> is the byte length of the
  body written with it, and what the patcher left under any other lower-case name is kept.\<close>

lemma onDone_content_length:
  "\<exists>H. onDone e res b hs = [WriteHead (statusCode res) (statusMessage res) H, Write b, End] \<and>
       map_of H ''content-length'' = Some (HNum (length (written e b))) \<and>
       map_of H ''Public-Key-Pins'' = None \<and>
       map_of H ''content-encoding'' = map_of hs ''content-encoding'' \<and>
       map_of H ''public-key-pins'' = map_of hs ''public-key-pins''"
  by (simp add: onDone_events delete_conv' update_conv' byteLength_def)

lemma finalize_text:
  "finalize e res r u True d i =
     CallOnTextResponse r u (toString e d) (rheaders res) i #
     (case onTextResponse e r u (toString e d) (rheaders res) i of
        None \<Rightarrow> []
      | Some (patched, hs) \<Rightarrow> onDone e res patched hs)"
  by (simp add: finalize_def)

lemma finalize_no_other: "\<not> list_ex callsOtherPatcher (finalize e res r u True d i)"
  by (simp add: finalize_def onDone_events callsOtherPatcher_def split: option.splits prod.splits)

text \<open>What follows the call of the text patcher: nothing while the patcher does not answer,
  and the reply to the client once it does, with the \<open>content-encoding\<close> the patcher left.\<close>

lemma finalize_text_reply:
  "(case onTextResponse e r u (toString e d) (rheaders res) i of
      None \<Rightarrow>
        finalize e res r u True d i = [CallOnTextResponse r u (toString e d) (rheaders res) i]
    | Some (patched, hs1) \<Rightarrow>
        (\<exists>H. finalize e res r u True d i =
                [CallOnTextResponse r u (toString e d) (rheaders res) i,
                 WriteHead (statusCode res) (statusMessage res) H, Write patched, End] \<and>
             map_of H ''content-encoding'' = map_of hs1 ''content-encoding''))"
  by (simp add: finalize_text onDone_events delete_conv' update_conv'
      split: option.splits prod.splits)

lemma lowerEncoding_string:
  "lowerEncoding (Some (HStr enc)) = Inr (Some (HStr (toLowerCase enc)))"
  by (simp add: toLowerCase_def)

lemma remoteEnd_compressed:
  assumes "asString (map_of (rheaders res) ''content-type'') = Inr ctype"
    "isText (Some (getType ctype None False))"
    "map_of (rheaders res) ''content-encoding'' = Some (HStr enc)"
    "toLowerCase enc = ''gzip'' \<or> toLowerCase enc = ''deflate''"
  shows "remoteEnd e hs u i res =
     (case unzip e (concat (chunks res)) of
        Inl msg \<Rightarrow> [Log WARNING (''Could not parse server response: '' @ msg), Destroy]
      | Inr plain \<Rightarrow>
          finalize e
            (res\<lparr>rheaders := AList.update ''content-encoding'' (HStr ''identity'') (rheaders res)\<rparr>)
            (map_of hs ''referer'') u True plain i)"
  using assms
  by (auto simp add: remoteEnd_def Let_def lowerEncoding_string simp del: lowerEncoding.simps
      split: sum.splits)

lemma remoteEnd_plain:
  assumes "asString (map_of (rheaders res) ''content-type'') = Inr ctype"
    "isText (Some (getType ctype None False))"
    "lowerEncoding (map_of (rheaders res) ''content-encoding'') = Inr encoding"
    "encoding \<noteq> Some (HStr ''gzip'')" "encoding \<noteq> Some (HStr ''deflate'')"
  shows "remoteEnd e hs u i res =
          finalize e
            (res\<lparr>rheaders := AList.update ''content-encoding'' (HStr ''identity'') (rheaders res)\<rparr>)
            (map_of hs ''referer'') u True (concat (chunks res)) i"
  using assms by (simp add: remoteEnd_def Let_def)

text \<open>
  Claim C2. For every response classified as text whose \<open>content-encoding\<close>, in lower case,
  is \<open>gzip\<close> or \<open>deflate\<close>: when the decoder fails, a warning is logged and the client side is
  destroyed, and nothing else happens (no patcher is called); when it succeeds, the text
  patcher is called with the decoded body as a string and with a header object whose
  \<open>content-encoding\<close> is \<open>identity\<close>. While the patcher does not answer nothing more happens;
  once it answers, the status line, the headers and the patched body are written to the
  client, and the headers written carry the \<open>content-encoding\<close> of the header object as the
  patcher left it: \<open>identity\<close> when the patcher left the object alone.
\<close>

theorem remoteEnd_decompresses_text:
  "asString (map_of (rheaders res) ''content-type'') = Inr ctype \<and>
   isText (Some (getType ctype None False)) \<and>
   map_of (rheaders res) ''content-encoding'' = Some (HStr enc) \<and>
   (toLowerCase enc = ''gzip'' \<or> toLowerCase enc = ''deflate'') \<longrightarrow>
     (case unzip e (concat (chunks res)) of
        Inl msg \<Rightarrow>
          remoteEnd e hs u ident res =
            [Log WARNING (''Could not parse server response: '' @ msg), Destroy]
      | Inr plain \<Rightarrow>
          (\<exists>sent.
             sent = AList.update ''content-encoding'' (HStr ''identity'') (rheaders res) \<and>
             map_of sent ''content-encoding'' = Some (HStr ''identity'') \<and>
             (case onTextResponse e (map_of hs ''referer'') u (toString e plain) sent ident of
                None \<Rightarrow>
                  remoteEnd e hs u ident res =
                    [CallOnTextResponse (map_of hs ''referer'') u (toString e plain) sent ident]
              | Some (patched, hs1) \<Rightarrow>
                  (\<exists>H. remoteEnd e hs u ident res =
                          [CallOnTextResponse (map_of hs ''referer'') u (toString e plain) sent
                             ident,
                           WriteHead (statusCode res) (statusMessage res) H,
                           Write patched, End] \<and>
                       map_of H ''content-encoding'' = map_of hs1 ''content-encoding'' \<and>
                       (hs1 = sent \<longrightarrow>
                          map_of H ''content-encoding'' = Some (HStr ''identity''))))))"
proof (intro impI)
  assume a: "asString (map_of (rheaders res) ''content-type'') = Inr ctype \<and>
   isText (Some (getType ctype None False)) \<and>
   map_of (rheaders res) ''content-encoding'' = Some (HStr enc) \<and>
   (toLowerCase enc = ''gzip'' \<or> toLowerCase enc = ''deflate'')"
  let ?sent = "AList.update ''content-encoding'' (HStr ''identity'') (rheaders res)"
  let ?res1 = "res\<lparr>rheaders := ?sent\<rparr>"
  let ?ref = "map_of hs ''referer''"
  have eq: "remoteEnd e hs u ident res =
     (case unzip e (concat (chunks res)) of
        Inl msg \<Rightarrow> [Log WARNING (''Could not parse server response: '' @ msg), Destroy]
      | Inr plain \<Rightarrow> finalize e ?res1 ?ref u True plain ident)"
    using a remoteEnd_compressed[of res ctype enc e hs u ident] by blast
  have m: "map_of ?sent ''content-encoding'' = Some (HStr ''identity'')"
    by (simp add: update_conv')
  show "case unzip e (concat (chunks res)) of
        Inl msg \<Rightarrow>
          remoteEnd e hs u ident res =
            [Log WARNING (''Could not parse server response: '' @ msg), Destroy]
      | Inr plain \<Rightarrow>
          (\<exists>sent.
             sent = AList.update ''content-encoding'' (HStr ''identity'') (rheaders res) \<and>
             map_of sent ''content-encoding'' = Some (HStr ''identity'') \<and>
             (case onTextResponse e (map_of hs ''referer'') u (toString e plain) sent ident of
                None \<Rightarrow>
                  remoteEnd e hs u ident res =
                    [CallOnTextResponse (map_of hs ''referer'') u (toString e plain) sent ident]
              | Some (patched, hs1) \<Rightarrow>
                  (\<exists>H. remoteEnd e hs u ident res =
                          [CallOnTextResponse (map_of hs ''referer'') u (toString e plain) sent
                             ident,
                           WriteHead (statusCode res) (statusMessage res) H,
                           Write patched, End] \<and>
                       map_of H ''content-encoding'' = map_of hs1 ''content-encoding'' \<and>
                       (hs1 = sent \<longrightarrow>
                          map_of H ''content-encoding'' = Some (HStr ''identity'')))))"
  proof (cases "unzip e (concat (chunks res))")
    case (Inl msg)
    with eq show ?thesis by simp
  next
    case (Inr plain)
    then have r: "remoteEnd e hs u ident res = finalize e ?res1 ?ref u True plain ident"
      using eq by simp
    note f = finalize_text_reply[where e = e and r = ?ref and u = u and d = plain
                                   and res = ?res1 and i = ident]
    show ?thesis
    proof (cases "onTextResponse e ?ref u (toString e plain) ?sent ident")
      case None
      with f r Inr m show ?thesis by simp
    next
      case (Some answer)
      obtain patched hs1 where an: "answer = (patched, hs1)" by (cases answer)
      from f Some an obtain H where
        h: "finalize e ?res1 ?ref u True plain ident =
              [CallOnTextResponse ?ref u (toString e plain) ?sent ident,
               WriteHead (statusCode res) (statusMessage res) H, Write patched, End]"
           "map_of H ''content-encoding'' = map_of hs1 ''content-encoding''"
        by auto
      with r Inr m Some an show ?thesis by auto
    qed
  qed
qed

theorem remoteEnd_decompresses_text_witness:
  "(\<exists>H.
      remoteEnd (sampleEnv Allow (sampleRes [] [])) [] ''http://example.test/'' 0
        (sampleRes [(''content-type'', HStr ''text/html; charset=utf-8''),
                    (''content-encoding'', HStr ''GZip'')] [take 10 gzipHi, drop 10 gzipHi]) =
        [CallOnTextResponse None ''http://example.test/'' [0x68, 0x69]
           [(''content-type'', HStr ''text/html; charset=utf-8''),
            (''content-encoding'', HStr ''identity'')] 0,
         WriteHead 200 ''OK'' H, Write (StringBody [0x68, 0x69]), End] \<and>
      map_of H ''content-encoding'' = Some (HStr ''identity'')) \<and>
   remoteEnd (sampleEnv Allow (sampleRes [] [])) [] ''http://example.test/'' 0
     (sampleRes [(''content-type'', HStr ''text/html; charset=utf-8''),
                 (''content-encoding'', HStr ''deflate'')] [[0x68, 0x69]]) =
     [Log WARNING ''Could not parse server response: incorrect header check'', Destroy]"
proof -
  let ?e = "sampleEnv Allow (sampleRes [] [])"
  let ?r1 = "sampleRes [(''content-type'', HStr ''text/html; charset=utf-8''),
                        (''content-encoding'', HStr ''GZip'')] [take 10 gzipHi, drop 10 gzipHi]"
  let ?r2 = "sampleRes [(''content-type'', HStr ''text/html; charset=utf-8''),
                        (''content-encoding'', HStr ''deflate'')] [[0x68, 0x69]]"
  let ?sent = "[(''content-type'', HStr ''text/html; charset=utf-8''),
                (''content-encoding'', HStr ''identity'')]"
  have t: "isText (Some (getType (Some ''text/html; charset=utf-8'') None False))" by code_simp
  have l1: "toLowerCase ''GZip'' = ''gzip''" by code_simp
  have l2: "toLowerCase ''deflate'' = ''deflate''" by code_simp
  have h1: "asString (map_of (rheaders ?r1) ''content-type'') = Inr (Some ''text/html; charset=utf-8'') \<and>
     isText (Some (getType (Some ''text/html; charset=utf-8'') None False)) \<and>
     map_of (rheaders ?r1) ''content-encoding'' = Some (HStr ''GZip'') \<and>
     (toLowerCase ''GZip'' = ''gzip'' \<or> toLowerCase ''GZip'' = ''deflate'')"
    using t l1 by (simp add: sampleRes_def)
  have h2: "asString (map_of (rheaders ?r2) ''content-type'') = Inr (Some ''text/html; charset=utf-8'') \<and>
     isText (Some (getType (Some ''text/html; charset=utf-8'') None False)) \<and>
     map_of (rheaders ?r2) ''content-encoding'' = Some (HStr ''deflate'') \<and>
     (toLowerCase ''deflate'' = ''gzip'' \<or> toLowerCase ''deflate'' = ''deflate'')"
    using t l2 by (simp add: sampleRes_def)
  have u1: "unzip ?e (concat (chunks ?r1)) = Inr [0x68, 0x69]"
    by (simp add: sampleEnv_def sampleRes_def)
  have u2: "unzip ?e (concat (chunks ?r2)) = Inl ''incorrect header check''"
    by (simp add: sampleEnv_def sampleRes_def gzipHi_def)
  have s: "toString ?e [0x68, 0x69] = [0x68, 0x69]"
    by (simp add: sampleEnv_def)
  have sent: "AList.update ''content-encoding'' (HStr ''identity'') (rheaders ?r1) = ?sent"
    by (simp add: sampleRes_def)
  have p: "onTextResponse ?e None ''http://example.test/'' [0x68, 0x69] ?sent 0 =
             Some (StringBody [0x68, 0x69], ?sent)"
    by (simp add: sampleEnv_def)
  have st: "statusCode ?r1 = 200" "statusMessage ?r1 = ''OK''"
    by (simp_all add: sampleRes_def)
  from remoteEnd_decompresses_text
         [of ?r1 "Some ''text/html; charset=utf-8''" "''GZip''" ?e "[]" "''http://example.test/''" 0]
       h1
  have "case unzip ?e (concat (chunks ?r1)) of
        Inl msg \<Rightarrow>
          remoteEnd ?e [] ''http://example.test/'' 0 ?r1 =
            [Log WARNING (''Could not parse server response: '' @ msg), Destroy]
      | Inr plain \<Rightarrow>
          (\<exists>sent.
             sent = AList.update ''content-encoding'' (HStr ''identity'') (rheaders ?r1) \<and>
             map_of sent ''content-encoding'' = Some (HStr ''identity'') \<and>
             (case onTextResponse ?e (map_of [] ''referer'') ''http://example.test/''
                     (toString ?e plain) sent 0 of
                None \<Rightarrow>
                  remoteEnd ?e [] ''http://example.test/'' 0 ?r1 =
                    [CallOnTextResponse (map_of [] ''referer'') ''http://example.test/''
                       (toString ?e plain) sent 0]
              | Some (patched, hs1) \<Rightarrow>
                  (\<exists>H. remoteEnd ?e [] ''http://example.test/'' 0 ?r1 =
                          [CallOnTextResponse (map_of [] ''referer'') ''http://example.test/''
                             (toString ?e plain) sent 0,
                           WriteHead (statusCode ?r1) (statusMessage ?r1) H,
                           Write patched, End] \<and>
                       map_of H ''content-encoding'' = map_of hs1 ''content-encoding'' \<and>
                       (hs1 = sent \<longrightarrow>
                          map_of H ''content-encoding'' = Some (HStr ''identity'')))))"
    by blast
  then have a: "\<exists>H.
      remoteEnd ?e [] ''http://example.test/'' 0 ?r1 =
        [CallOnTextResponse None ''http://example.test/'' [0x68, 0x69] ?sent 0,
         WriteHead 200 ''OK'' H, Write (StringBody [0x68, 0x69]), End] \<and>
      map_of H ''content-encoding'' = Some (HStr ''identity'')"
    unfolding u1 sent by (simp add: s p st)
  from remoteEnd_decompresses_text
         [of ?r2 "Some ''text/html; charset=utf-8''" "''deflate''" ?e "[]" "''http://example.test/''" 0]
       h2 u2
  have b: "remoteEnd ?e [] ''http://example.test/'' 0 ?r2 =
     [Log WARNING ''Could not parse server response: incorrect header check'', Destroy]"
    by simp
  from a b show ?thesis by blast
qed

lemma isText_default: "isText (Some (getType None None False))"
  by code_simp

lemma remoteEnd_untyped:
  assumes "map_of (rheaders res) ''content-type'' = None"
  shows "remoteEnd e hs u i res =
     (case lowerEncoding (map_of (rheaders res) ''content-encoding'') of
        Inl err \<Rightarrow> [Throw err]
      | Inr encoding \<Rightarrow>
          if encoding = Some (HStr ''gzip'') \<or> encoding = Some (HStr ''deflate'') then
            (case unzip e (concat (chunks res)) of
               Inl msg \<Rightarrow> [Log WARNING (''Could not parse server response: '' @ msg), Destroy]
             | Inr plain \<Rightarrow>
                 finalize e
                   (res\<lparr>rheaders :=
                      AList.update ''content-encoding'' (HStr ''identity'') (rheaders res)\<rparr>)
                   (map_of hs ''referer'') u True plain i)
          else
            finalize e
              (res\<lparr>rheaders :=
                 AList.update ''content-encoding'' (HStr ''identity'') (rheaders res)\<rparr>)
              (map_of hs ''referer'') u True (concat (chunks res)) i)"
  using assms isText_default by (simp add: remoteEnd_def Let_def split: sum.splits)

text \<open>
  Claim C10, as stated, at a response without \<open>content-type\<close> whose \<open>content-encoding\<close> is
  \<open>gzip\<close> and whose body the decoder rejects: the response is classified as text, and the body
  is handed to no patcher at all; a warning is logged and the client side is destroyed.
\<close>

theorem untyped_response_undecodable:
  "map_of (rheaders (sampleRes [(''content-encoding'', HStr ''gzip'')] [[0x68, 0x69]]))
     ''content-type'' = None \<and>
   remoteEnd (sampleEnv Allow (sampleRes [] [])) [] ''http://example.test/'' 0
     (sampleRes [(''content-encoding'', HStr ''gzip'')] [[0x68, 0x69]]) =
     [Log WARNING ''Could not parse server response: incorrect header check'', Destroy] \<and>
   \<not> list_ex callsTextPatcher
        (remoteEnd (sampleEnv Allow (sampleRes [] [])) [] ''http://example.test/'' 0
          (sampleRes [(''content-encoding'', HStr ''gzip'')] [[0x68, 0x69]]))"
  by code_simp

text \<open>
  Claim C10, amended. For every upstream response without a \<open>content-type\<close> header the engine
  classifies the response as text (\<open>getType\<close> gives \<open>text/html\<close>, which \<open>isText\<close> accepts), so
  the body is never handed to \<open>onOtherResponse\<close>; it is handed to \<open>onTextResponse\<close>, decoded
  first when \<open>content-encoding\<close> is \<open>gzip\<close> or \<open>deflate\<close>, unless that decoding fails: then
  a warning is logged, the client side is destroyed and no patcher is called.
\<close>

theorem untyped_response_is_text:
  "map_of (rheaders res) ''content-type'' = None \<longrightarrow>
     isText (Some (getType None None False)) \<and>
     \<not> list_ex callsOtherPatcher (remoteEnd e hs u ident res) \<and>
     (lowerEncoding (map_of (rheaders res) ''content-encoding'') = Inr encoding \<and>
      encoding \<noteq> Some (HStr ''gzip'') \<and> encoding \<noteq> Some (HStr ''deflate'') \<longrightarrow>
        (\<exists>sent rest. remoteEnd e hs u ident res =
           CallOnTextResponse (map_of hs ''referer'') u (toString e (concat (chunks res))) sent
             ident # rest)) \<and>
     (lowerEncoding (map_of (rheaders res) ''content-encoding'') = Inr encoding \<and>
      (encoding = Some (HStr ''gzip'') \<or> encoding = Some (HStr ''deflate'')) \<and>
      unzip e (concat (chunks res)) = Inr plain \<longrightarrow>
        (\<exists>sent rest. remoteEnd e hs u ident res =
           CallOnTextResponse (map_of hs ''referer'') u (toString e plain) sent ident # rest)) \<and>
     (lowerEncoding (map_of (rheaders res) ''content-encoding'') = Inr encoding \<and>
      (encoding = Some (HStr ''gzip'') \<or> encoding = Some (HStr ''deflate'')) \<and>
      unzip e (concat (chunks res)) = Inl msg \<longrightarrow>
        remoteEnd e hs u ident res =
          [Log WARNING (''Could not parse server response: '' @ msg), Destroy])"
proof (intro impI)
  assume n: "map_of (rheaders res) ''content-type'' = None"
  note eq = remoteEnd_untyped[OF n, of e hs u ident]
  let ?res1 = "res\<lparr>rheaders :=
                 AList.update ''content-encoding'' (HStr ''identity'') (rheaders res)\<rparr>"
  have other: "\<not> list_ex callsOtherPatcher (remoteEnd e hs u ident res)"
    unfolding eq
    by (simp add: finalize_no_other callsOtherPatcher_def split: sum.splits)
  have plainly: "lowerEncoding (map_of (rheaders res) ''content-encoding'') = Inr encoding \<and>
      encoding \<noteq> Some (HStr ''gzip'') \<and> encoding \<noteq> Some (HStr ''deflate'') \<longrightarrow>
        (\<exists>sent rest. remoteEnd e hs u ident res =
           CallOnTextResponse (map_of hs ''referer'') u (toString e (concat (chunks res))) sent
             ident # rest)"
    unfolding eq by (simp add: finalize_text)
  have decoded: "lowerEncoding (map_of (rheaders res) ''content-encoding'') = Inr encoding \<and>
      (encoding = Some (HStr ''gzip'') \<or> encoding = Some (HStr ''deflate'')) \<and>
      unzip e (concat (chunks res)) = Inr plain \<longrightarrow>
        (\<exists>sent rest. remoteEnd e hs u ident res =
           CallOnTextResponse (map_of hs ''referer'') u (toString e plain) sent ident # rest)"
    unfolding eq by (auto simp: finalize_text)
  have failed: "lowerEncoding (map_of (rheaders res) ''content-encoding'') = Inr encoding \<and>
      (encoding = Some (HStr ''gzip'') \<or> encoding = Some (HStr ''deflate'')) \<and>
      unzip e (concat (chunks res)) = Inl msg \<longrightarrow>
        remoteEnd e hs u ident res =
          [Log WARNING (''Could not parse server response: '' @ msg), Destroy]"
    unfolding eq by auto
  from isText_default other plainly decoded failed
  show "isText (Some (getType None None False)) \<and>
     \<not> list_ex callsOtherPatcher (remoteEnd e hs u ident res) \<and>
     (lowerEncoding (map_of (rheaders res) ''content-encoding'') = Inr encoding \<and>
      encoding \<noteq> Some (HStr ''gzip'') \<and> encoding \<noteq> Some (HStr ''deflate'') \<longrightarrow>
        (\<exists>sent rest. remoteEnd e hs u ident res =
           CallOnTextResponse (map_of hs ''referer'') u (toString e (concat (chunks res))) sent
             ident # rest)) \<and>
     (lowerEncoding (map_of (rheaders res) ''content-encoding'') = Inr encoding \<and>
      (encoding = Some (HStr ''gzip'') \<or> encoding = Some (HStr ''deflate'')) \<and>
      unzip e (concat (chunks res)) = Inr plain \<longrightarrow>
        (\<exists>sent rest. remoteEnd e hs u ident res =
           CallOnTextResponse (map_of hs ''referer'') u (toString e plain) sent ident # rest)) \<and>
     (lowerEncoding (map_of (rheaders res) ''content-encoding'') = Inr encoding \<and>
      (encoding = Some (HStr ''gzip'') \<or> encoding = Some (HStr ''deflate'')) \<and>
      unzip e (concat (chunks res)) = Inl msg \<longrightarrow>
        remoteEnd e hs u ident res =
          [Log WARNING (''Could not parse server response: '' @ msg), Destroy])"
    by blast
qed

theorem untyped_response_is_text_witness:
  "(\<exists>sent rest.
      remoteEnd (sampleEnv Allow (sampleRes [] [])) [] ''http://example.test/'' 0
        (sampleRes [(''server'', HStr ''nginx'')] [[0x68], [0x69]]) =
        CallOnTextResponse None ''http://example.test/'' [0x68, 0x69] sent 0 # rest) \<and>
   \<not> list_ex callsOtherPatcher
        (remoteEnd (sampleEnv Allow (sampleRes [] [])) [] ''http://example.test/'' 0
          (sampleRes [(''server'', HStr ''nginx'')] [[0x68], [0x69]]))"
proof -
  let ?e = "sampleEnv Allow (sampleRes [] [])"
  let ?r = "sampleRes [(''server'', HStr ''nginx'')] [[0x68], [0x69]]"
  have h: "map_of (rheaders ?r) ''content-type'' = None" by (simp add: sampleRes_def)
  have l: "lowerEncoding (map_of (rheaders ?r) ''content-encoding'') = Inr None \<and>
           None \<noteq> Some (HStr ''gzip'') \<and> None \<noteq> Some (HStr ''deflate'')"
    by (simp add: sampleRes_def)
  have s: "toString ?e (concat (chunks ?r)) = [0x68, 0x69]"
    by (simp add: sampleEnv_def sampleRes_def)
  from untyped_response_is_text[of ?r ?e "[]" "''http://example.test/''" 0 None] h l s
  show ?thesis by auto
qed


section \<open>Finalization\<close>

text \<open>
  Claim C1, at an upstream response with the header \<open>Public-Key-Pins\<close>, which Node stores under
  the lower-case name \<open>public-key-pins\<close> as it does \<open>content-type\<close> and \<open>content-encoding\<close>:
  \<open>delete remoteRes.headers["Public-Key-Pins"]\<close> removes nothing, and the header is written to
  the client. The \<open>content-length\<close> written is the byte length of the body written
  (\<open>onDone_content_length\<close>).
\<close>

theorem public_key_pins_forwarded:
  "filter writesToClient
     (fst (requestEngine
             (sampleEnv Allow
                (sampleRes [(''content-type'', HStr ''image/png''),
                            (''public-key-pins'', HStr ''max-age=5184000'')] [[0x89]]))
             0 sampleReq)) =
     [WriteHead 200 ''OK''
        [(''content-type'', HStr ''image/png''),
         (''public-key-pins'', HStr ''max-age=5184000''),
         (''content-length'', HNum 1)],
      Write (BufferBody [0x89]), End] \<and>
   hasHeader
     [(''content-type'', HStr ''image/png''),
      (''public-key-pins'', HStr ''max-age=5184000''),
      (''content-length'', HNum 1)] ''Public-Key-Pins''"
  by code_simp

end
